theory Spec2Isabelle
  imports Main "HOL-Library.Multiset"
begin

section \<open>Data model\<close>

text \<open>
  Errors are values. The constructors follow the error sites of \<^verbatim>\<open>migrator.go\<close>:
  each \<^verbatim>\<open>fmt.Errorf\<close> with its own message is a constructor carrying the values
  that are formatted into the message, \<open>Wrapf msg e\<close> is
  \<^verbatim>\<open>fmt.Errorf("msg: %w", e)\<close>, and the remaining constructors are the errors
  the collaborators hand back (\<^verbatim>\<open>strconv\<close>, \<^verbatim>\<open>io/fs\<close>, the database).
\<close>

datatype error =
    InvalidFilename string
  | UnexpectedSequence string int
  | ScriptCountMismatch nat nat
  | UpDownMismatch string string
  | ExpectedCurrentVersion int int
  | Wrapf string error
  | NumError string string
  | PathError string string string
  | ErrBadPattern
  | ErrNoRows
  | PgError string
  | IndexOutOfRange

record Migration =
  Version :: int
  Filename :: string

text \<open>
  \<^verbatim>\<open>fs.FS\<close> as the program uses it: the names in the root directory (what
  \<^verbatim>\<open>fs.Glob\<close> lists from) and what \<^verbatim>\<open>fs.ReadFile\<close> returns for a
  name: the bytes, or the error of the file system, whatever it is (no such file, a
  directory, no permission).
\<close>

record FS =
  dir_names :: "string list"
  file_bytes :: "string \<Rightarrow> error + string"

record Migrator =
  VersionTable :: string
  Filesystem :: FS
  MigrateUp :: "Migration list"
  MigrateDown :: "Migration list"

definition DefaultVersionTable :: string where
  "DefaultVersionTable = ''schema_version''"

section \<open>Library functions the catalog construction calls\<close>

text \<open>\<^verbatim>\<open>strings.HasSuffix\<close> and \<^verbatim>\<open>strings.TrimSuffix\<close>, as the Go library defines them.\<close>

definition HasSuffix :: "string \<Rightarrow> string \<Rightarrow> bool" where
  "HasSuffix s suffix =
     (length s \<ge> length suffix \<and> drop (length s - length suffix) s = suffix)"

definition TrimSuffix :: "string \<Rightarrow> string \<Rightarrow> string" where
  "TrimSuffix s suffix =
     (if HasSuffix s suffix then take (length s - length suffix) s else s)"

text \<open>
  \<^verbatim>\<open>fs.Glob(filesystem, "*.sql")\<close>: the root directory's names that match the
  pattern, in directory order. A name holds no separator, so \<^verbatim>\<open>*\<close> matches any
  prefix and the match is "the name ends in .sql". Glob ignores I/O errors and returns
  an error only for a malformed pattern, which this constant pattern is not; the error
  branch of the caller is kept all the same.
\<close>

definition Glob_sql :: "FS \<Rightarrow> error + string list" where
  "Glob_sql filesystem = Inr (filter (\<lambda>n. HasSuffix n ''.sql'') (dir_names filesystem))"

definition is_digit :: "char \<Rightarrow> bool" where
  "is_digit c = (c \<in> set ''0123456789'')"

definition newline :: char where
  "newline = CHR 0x0A"

text \<open>
  \<^verbatim>\<open>pattern.FindStringSubmatch\<close> for the one pattern of the program,
  \<^verbatim>\<open>^([0-9]+)_(.*)\.(up|down)\.sql$\<close>. The result is the three groups, or
  \<open>None\<close> for Go's \<^verbatim>\<open>nil\<close>. Group 1 is followed by an underscore, which is no
  digit, so it is the longest prefix of digits and it must not be empty; the pattern is
  anchored at both ends, so group 3 is decided by how the text ends and group 2 is what
  lies between; \<^verbatim>\<open>.\<close> matches every character but the newline.
\<close>

definition FindStringSubmatch :: "string \<Rightarrow> (string \<times> string \<times> string) option" where
  "FindStringSubmatch s =
     (let digits = takeWhile is_digit s; rest = dropWhile is_digit s in
      if digits = [] then None
      else case rest of
        [] \<Rightarrow> None
      | c # r \<Rightarrow>
          if c \<noteq> CHR ''_'' then None
          else if HasSuffix r ''.up.sql'' \<and> newline \<notin> set (TrimSuffix r ''.up.sql'')
            then Some (digits, TrimSuffix r ''.up.sql'', ''up'')
          else if HasSuffix r ''.down.sql'' \<and> newline \<notin> set (TrimSuffix r ''.down.sql'')
            then Some (digits, TrimSuffix r ''.down.sql'', ''down'')
          else None)"

text \<open>
  \<^verbatim>\<open>strconv.Atoi\<close> on the text of group 1, which is a non-empty run of digits and
  never carries a sign: the decimal value, or a range error when it does not fit Go's
  64-bit \<^verbatim>\<open>int\<close>.
\<close>

definition decimal :: "string \<Rightarrow> int" where
  "decimal s = foldl (\<lambda>a c. 10 * a + (int (of_char c) - 48)) 0 s"

definition Atoi :: "string \<Rightarrow> error + int" where
  "Atoi s =
     (if s = [] \<or> \<not> list_all is_digit s then Inl (NumError s ''invalid syntax'')
      else if decimal s > 2 ^ 63 - 1 then Inl (NumError s ''value out of range'')
      else Inr (decimal s))"

section \<open>Catalog construction\<close>

text \<open>
  The first loop of \<^verbatim>\<open>newMigrator\<close>: classify every listed file and append it to
  \<^verbatim>\<open>m.MigrateUp\<close> or \<^verbatim>\<open>m.MigrateDown\<close>. A Go slice that was never appended
  to is \<^verbatim>\<open>nil\<close>, and one that was is not empty, so \<open>[]\<close> stands for \<^verbatim>\<open>nil\<close>.
\<close>

fun scan :: "bool \<Rightarrow> string list \<Rightarrow> Migration list \<Rightarrow> Migration list
    \<Rightarrow> error + (Migration list \<times> Migration list)" where
  "scan strict [] ups downs = Inr (ups, downs)"
| "scan strict (filename # files) ups downs =
     (case FindStringSubmatch filename of
        None \<Rightarrow>
          if strict then Inl (InvalidFilename filename)
          else scan strict files ups downs
      | Some (g1, g2, g3) \<Rightarrow>
          (case Atoi g1 of
             Inl err \<Rightarrow> Inl (Wrapf (''bad filename: '' @ filename) err)
           | Inr n \<Rightarrow>
               let mig = \<lparr>Version = n, Filename = filename\<rparr> in
               if g3 = ''up'' then scan strict files (ups @ [mig]) downs
               else scan strict files ups (downs @ [mig])))"

text \<open>
  The loop \<^verbatim>\<open>for i, v := range ... { if v.Version != i+1 ... }\<close>, started at
  index \<open>i\<close>; \<open>None\<close> when it runs through.
\<close>

fun check_sequence :: "nat \<Rightarrow> Migration list \<Rightarrow> error option" where
  "check_sequence i [] = None"
| "check_sequence i (v # vs) =
     (if Version v \<noteq> int i + 1 then Some (UnexpectedSequence (Filename v) (int i + 1))
      else check_sequence (i + 1) vs)"

text \<open>
  The loop comparing \<^verbatim>\<open>MigrateUp[i]\<close> with \<^verbatim>\<open>MigrateDown[i]\<close>. Reading past
  the end of \<^verbatim>\<open>MigrateDown\<close> would panic; the caller has compared the lengths.
\<close>

fun check_names :: "Migration list \<Rightarrow> Migration list \<Rightarrow> error option" where
  "check_names [] downs = None"
| "check_names (v # ups) [] = Some IndexOutOfRange"
| "check_names (v # ups) (d # downs) =
     (if TrimSuffix (Filename v) ''.up.sql'' \<noteq> TrimSuffix (Filename d) ''.down.sql''
      then Some (UpDownMismatch (Filename v) (Filename d))
      else check_names ups downs)"

text \<open>
  \<^verbatim>\<open>sort.Slice\<close> orders by \<^verbatim>\<open>Version\<close>; it is modelled by the stable
  \<open>sort_key\<close>. Go leaves the order of equal versions open, and a list with two equal
  versions fails the sequence check in any order, so only the file named in that error
  depends on the choice.
\<close>

definition newMigrator :: "FS \<Rightarrow> bool \<Rightarrow> error + Migrator" where
  "newMigrator filesystem strict =
     (case Glob_sql filesystem of
        Inl err \<Rightarrow> Inl (Wrapf ''failed to read patches'' err)
      | Inr files \<Rightarrow>
          (case scan strict files [] [] of
             Inl err \<Rightarrow> Inl err
           | Inr (ups0, downs0) \<Rightarrow>
               let ups = sort_key Version ups0 in
               (case check_sequence 0 ups of
                  Some err \<Rightarrow> Inl err
                | None \<Rightarrow>
                    if downs0 = [] then
                      Inr \<lparr>VersionTable = DefaultVersionTable, Filesystem = filesystem,
                           MigrateUp = ups, MigrateDown = []\<rparr>
                    else
                      let downs = sort_key Version downs0 in
                      if length ups \<noteq> length downs
                      then Inl (ScriptCountMismatch (length ups) (length downs))
                      else (case check_sequence 0 downs of
                              Some err \<Rightarrow> Inl err
                            | None \<Rightarrow>
                                (case check_names ups downs of
                                   Some err \<Rightarrow> Inl err
                                 | None \<Rightarrow>
                                     Inr \<lparr>VersionTable = DefaultVersionTable,
                                          Filesystem = filesystem,
                                          MigrateUp = ups, MigrateDown = downs\<rparr>)))))"

definition New :: "FS \<Rightarrow> error + Migrator" where
  "New filesystem = newMigrator filesystem True"

definition NewLoose :: "FS \<Rightarrow> error + Migrator" where
  "NewLoose filesystem = newMigrator filesystem False"

definition Latest :: "Migrator \<Rightarrow> int" where
  "Latest m =
     (if length (MigrateUp m) = 0 then 0
      else Version (MigrateUp m ! (length (MigrateUp m) - 1)))"

section \<open>The database as the program sees it\<close>

text \<open>
  The program issues five fixed SQL statements, with the name of the version table
  formatted in, and the text of a patch script. They are the constructors below:
  \<^item> \<open>CreateTable t\<close> is \<^verbatim>\<open>CREATE TABLE IF NOT EXISTS t (id INTEGER PRIMARY KEY
    CONSTRAINT one_version CHECK(id = 1), version INTEGER NOT NULL)\<close>;
  \<^item> \<open>InsertRow t\<close> is \<^verbatim>\<open>INSERT INTO t (id, version) VALUES (1, 0)\<close>;
  \<^item> \<open>UpdateVersion t v\<close> is \<^verbatim>\<open>update t set version = $1\<close> with argument \<open>v\<close>;
  \<^item> \<open>Script sql\<close> is \<^verbatim>\<open>tx.Exec(ctx, string(sql))\<close>;
  \<^item> \<open>CountRows t\<close> is \<^verbatim>\<open>SELECT COUNT(*) FROM t\<close>;
  \<^item> \<open>SelectVersion t\<close> is \<^verbatim>\<open>select version from t\<close>.
\<close>

datatype command =
    CreateTable string
  | InsertRow string
  | UpdateVersion string int
  | Script string

datatype query =
    CountRows string
  | SelectVersion string

text \<open>
  \<^verbatim>\<open>Conn\<close> and \<^verbatim>\<open>pgx.Tx\<close> are interfaces; the program works with any
  implementation. \<open>'d\<close> is the state of the database as the session sees it.
  \<open>Begin\<close> and \<open>Commit\<close> return the error, if any; \<open>Exec\<close> returns the new
  state or an error; \<open>QueryRow\<close> is \<^verbatim>\<open>QueryRow(...).Scan(&n)\<close> for one integer.
\<close>

record 'd Conn =
  Begin :: "'d \<Rightarrow> error option"
  Exec :: "command \<Rightarrow> 'd \<Rightarrow> error + 'd"
  QueryRow :: "query \<Rightarrow> 'd \<Rightarrow> error + int"
  Commit :: "'d \<Rightarrow> error option"

text \<open>
  What the program does to its collaborators, in order: the log is never rolled back,
  the database is.
\<close>

datatype event =
    FileRead string
  | TxBegin
  | TxCommit
  | TxRollback
  | Executed command
  | Queried query

record 'd world =
  db :: 'd
  log :: "event list"

definition emit :: "event \<Rightarrow> 'd world \<Rightarrow> 'd world" where
  "emit ev w = w\<lparr>log := log w @ [ev]\<rparr>"

definition tx_Exec :: "'d Conn \<Rightarrow> command \<Rightarrow> 'd world \<Rightarrow> (error + unit) \<times> 'd world" where
  "tx_Exec conn c w =
     (case Exec conn c (db w) of
        Inl err \<Rightarrow> (Inl err, emit (Executed c) w)
      | Inr d \<Rightarrow> (Inr (), emit (Executed c) (w\<lparr>db := d\<rparr>)))"

definition tx_QueryRow :: "'d Conn \<Rightarrow> query \<Rightarrow> 'd world \<Rightarrow> (error + int) \<times> 'd world" where
  "tx_QueryRow conn q w =
     (case QueryRow conn q (db w) of
        Inl err \<Rightarrow> (Inl err, emit (Queried q) w)
      | Inr n \<Rightarrow> (Inr n, emit (Queried q) w))"

text \<open>
  \<^verbatim>\<open>pgx.BeginFunc\<close>: begin a transaction, run the function in it, commit when it
  returns no error and roll back when it returns one. A rollback puts the database
  back to what it was at the begin.
\<close>

definition BeginFunc :: "'d Conn \<Rightarrow> ('d world \<Rightarrow> (error + 'a) \<times> 'd world)
    \<Rightarrow> 'd world \<Rightarrow> (error + 'a) \<times> 'd world" where
  "BeginFunc conn fn w =
     (case Begin conn (db w) of
        Some err \<Rightarrow> (Inl err, w)
      | None \<Rightarrow>
          (case fn (emit TxBegin w) of
             (Inl err, w') \<Rightarrow> (Inl err, emit TxRollback (w'\<lparr>db := db w\<rparr>))
           | (Inr x, w') \<Rightarrow>
               (case Commit conn (db w') of
                  Some err \<Rightarrow> (Inl err, emit TxRollback (w'\<lparr>db := db w\<rparr>))
                | None \<Rightarrow> (Inr x, emit TxCommit w'))))"

text \<open>\<^verbatim>\<open>fs.ReadFile\<close>: the bytes or the error, as the file system returns them.\<close>

definition ReadFile :: "FS \<Rightarrow> string \<Rightarrow> 'd world \<Rightarrow> (error + string) \<times> 'd world" where
  "ReadFile filesystem name w =
     (case file_bytes filesystem name of
        Inl err \<Rightarrow> (Inl err, emit (FileRead name) w)
      | Inr bytes \<Rightarrow> (Inr bytes, emit (FileRead name) w))"

section \<open>Version table, apply and upgrade\<close>

definition initializeSchemaVersion :: "'d Conn \<Rightarrow> Migrator \<Rightarrow> 'd world
    \<Rightarrow> (error + unit) \<times> 'd world" where
  "initializeSchemaVersion conn m w =
     (case BeginFunc conn
             (\<lambda>tx.
                case tx_Exec conn (CreateTable (VersionTable m)) tx of
                  (Inl err, tx) \<Rightarrow> (Inl err, tx)
                | (Inr _, tx) \<Rightarrow>
                    (case tx_QueryRow conn (CountRows (VersionTable m)) tx of
                       (Inl err, tx) \<Rightarrow> (Inl err, tx)
                     | (Inr n, tx) \<Rightarrow>
                         if n > 0 then (Inr (), tx)
                         else (case tx_Exec conn (InsertRow (VersionTable m)) tx of
                                 (Inl err, tx) \<Rightarrow> (Inl err, tx)
                               | (Inr _, tx) \<Rightarrow> (Inr (), tx))))
             w of
        (Inl err, w') \<Rightarrow>
          (Inl (Wrapf (''while creating version table '' @ VersionTable m) err), w')
      | (Inr _, w') \<Rightarrow> (Inr (), w'))"

definition Current :: "'d Conn \<Rightarrow> Migrator \<Rightarrow> 'd world \<Rightarrow> (error + int) \<times> 'd world" where
  "Current conn m w =
     (case initializeSchemaVersion conn m w of
        (Inl err, w') \<Rightarrow> (Inl err, w')
      | (Inr _, w') \<Rightarrow>
          (case BeginFunc conn (\<lambda>tx. tx_QueryRow conn (SelectVersion (VersionTable m)) tx) w' of
             (Inl err, w'') \<Rightarrow>
               (Inl (Wrapf ''failed to retrieve current schema version'' err), w'')
           | (Inr version, w'') \<Rightarrow> (Inr version, w'')))"

definition Apply :: "'d Conn \<Rightarrow> Migrator \<Rightarrow> int \<Rightarrow> int \<Rightarrow> string \<Rightarrow> 'd world
    \<Rightarrow> (error + unit) \<times> 'd world" where
  "Apply conn m before after filename w =
     (case ReadFile (Filesystem m) filename w of
        (Inl err, w') \<Rightarrow> (Inl (Wrapf ''while reading patch file'' err), w')
      | (Inr sql, w') \<Rightarrow>
          (case BeginFunc conn
                  (\<lambda>tx.
                     case tx_QueryRow conn (SelectVersion (VersionTable m)) tx of
                       (Inl err, tx) \<Rightarrow> (Inl (Wrapf ''while reading current version'' err), tx)
                     | (Inr current, tx) \<Rightarrow>
                         if current \<noteq> before
                         then (Inl (ExpectedCurrentVersion before current), tx)
                         else (case tx_Exec conn (UpdateVersion (VersionTable m) after) tx of
                                 (Inl err, tx) \<Rightarrow>
                                   (Inl (Wrapf ''while updating current version'' err), tx)
                               | (Inr _, tx) \<Rightarrow>
                                   (case tx_Exec conn (Script sql) tx of
                                      (Inl err, tx) \<Rightarrow> (Inl err, tx)
                                    | (Inr _, tx) \<Rightarrow> (Inr (), tx))))
                  w' of
             (Inl err, w'') \<Rightarrow> (Inl (Wrapf (''while applying '' @ filename) err), w'')
           | (Inr _, w'') \<Rightarrow> (Inr (), w'')))"

text \<open>The loop of \<^verbatim>\<open>Up\<close> over \<^verbatim>\<open>m.MigrateUp\<close>, with the local \<^verbatim>\<open>current\<close>.\<close>

fun up_loop :: "'d Conn \<Rightarrow> Migrator \<Rightarrow> int \<Rightarrow> Migration list \<Rightarrow> 'd world
    \<Rightarrow> (error + unit) \<times> 'd world" where
  "up_loop conn m current [] w = (Inr (), w)"
| "up_loop conn m current (v # vs) w =
     (if current \<ge> Version v then up_loop conn m current vs w
      else (case Apply conn m current (Version v) (Filename v) w of
              (Inl err, w') \<Rightarrow> (Inl (Wrapf (''failed to apply '' @ Filename v) err), w')
            | (Inr _, w') \<Rightarrow> up_loop conn m (Version v) vs w'))"

definition Up :: "'d Conn \<Rightarrow> Migrator \<Rightarrow> 'd world \<Rightarrow> (error + unit) \<times> 'd world" where
  "Up conn m w =
     (case Current conn m w of
        (Inl err, w') \<Rightarrow> (Inl err, w')
      | (Inr current, w') \<Rightarrow> up_loop conn m current (MigrateUp m) w')"

definition Migrate :: "'d Conn \<Rightarrow> FS \<Rightarrow> 'd world \<Rightarrow> (error + unit) \<times> 'd world" where
  "Migrate conn filesystem w =
     (case New filesystem of
        Inl err \<Rightarrow> (Inl err, w)
      | Inr m \<Rightarrow> Up conn m w)"

section \<open>A reference database\<close>

text \<open>
  One session on a PostgreSQL database. \<open>tables d t\<close> is \<open>None\<close> when there is no
  table \<open>t\<close>; a table made by \<open>CreateTable\<close> holds at most one row (its key is
  constrained to 1), so its state is the version of that row, if there is one.
  \<open>user_data\<close> is everything else in the database. What a patch script does is the
  parameter \<open>run\<close>; a script may fail, and it may touch any part of the database.
\<close>

record 'u pgdb =
  tables :: "string \<Rightarrow> int option option"
  user_data :: 'u

definition undefined_table :: error where
  "undefined_table = PgError ''42P01''"

definition unique_violation :: error where
  "unique_violation = PgError ''23505''"

fun pg_Exec :: "(string \<Rightarrow> 'u pgdb \<Rightarrow> error + 'u pgdb) \<Rightarrow> command \<Rightarrow> 'u pgdb
    \<Rightarrow> error + 'u pgdb" where
  "pg_Exec run (CreateTable t) d =
     (case tables d t of
        None \<Rightarrow> Inr (d\<lparr>tables := (tables d)(t \<mapsto> None)\<rparr>)
      | Some rows \<Rightarrow> Inr d)"
| "pg_Exec run (InsertRow t) d =
     (case tables d t of
        None \<Rightarrow> Inl undefined_table
      | Some None \<Rightarrow> Inr (d\<lparr>tables := (tables d)(t \<mapsto> Some 0)\<rparr>)
      | Some (Some v) \<Rightarrow> Inl unique_violation)"
| "pg_Exec run (UpdateVersion t a) d =
     (case tables d t of
        None \<Rightarrow> Inl undefined_table
      | Some None \<Rightarrow> Inr d
      | Some (Some v) \<Rightarrow> Inr (d\<lparr>tables := (tables d)(t \<mapsto> Some a)\<rparr>))"
| "pg_Exec run (Script sql) d = run sql d"

fun pg_QueryRow :: "query \<Rightarrow> 'u pgdb \<Rightarrow> error + int" where
  "pg_QueryRow (CountRows t) d =
     (case tables d t of
        None \<Rightarrow> Inl undefined_table
      | Some None \<Rightarrow> Inr 0
      | Some (Some v) \<Rightarrow> Inr 1)"
| "pg_QueryRow (SelectVersion t) d =
     (case tables d t of
        None \<Rightarrow> Inl undefined_table
      | Some None \<Rightarrow> Inl ErrNoRows
      | Some (Some v) \<Rightarrow> Inr v)"

definition pg :: "(string \<Rightarrow> 'u pgdb \<Rightarrow> error + 'u pgdb) \<Rightarrow> 'u pgdb Conn" where
  "pg run = \<lparr>Begin = (\<lambda>d. None), Exec = pg_Exec run, QueryRow = pg_QueryRow,
             Commit = (\<lambda>d. None)\<rparr>"

section \<open>Notions the properties are stated with\<close>

text \<open>
  What the pattern says about a file name: its direction (group 3), its version (the
  value of group 1) and the migration the scan makes of it; the up and the down files
  of a listing; and the patch store with the names that do not match taken out.
\<close>

definition file_direction :: "string \<Rightarrow> string option" where
  "file_direction f = (case FindStringSubmatch f of None \<Rightarrow> None | Some (g1, g2, g3) \<Rightarrow> Some g3)"

definition file_version :: "string \<Rightarrow> int" where
  "file_version f = (case FindStringSubmatch f of None \<Rightarrow> 0 | Some (g1, g2, g3) \<Rightarrow> decimal g1)"

definition up_files :: "string list \<Rightarrow> string list" where
  "up_files files = filter (\<lambda>f. file_direction f = Some ''up'') files"

definition down_files :: "string list \<Rightarrow> string list" where
  "down_files files = filter (\<lambda>f. file_direction f = Some ''down'') files"

definition migration_of :: "string \<Rightarrow> Migration" where
  "migration_of f = \<lparr>Version = file_version f, Filename = f\<rparr>"

definition matches_pattern :: "string \<Rightarrow> bool" where
  "matches_pattern f = (FindStringSubmatch f \<noteq> None)"

definition matching_only :: "FS \<Rightarrow> FS" where
  "matching_only filesystem =
     filesystem\<lparr>dir_names := filter matches_pattern (dir_names filesystem)\<rparr>"

text \<open>
  On the reference database: the version row of table \<open>t\<close> set to \<open>v\<close>, and the
  events of one run of \<^verbatim>\<open>initializeSchemaVersion\<close> that commits, with or without
  the insert.
\<close>

definition bump :: "'u pgdb \<Rightarrow> string \<Rightarrow> int \<Rightarrow> 'u pgdb" where
  "bump d t v = d\<lparr>tables := (tables d)(t \<mapsto> Some v)\<rparr>"

definition init_events :: "string \<Rightarrow> bool \<Rightarrow> event list" where
  "init_events t ins =
     [TxBegin, Executed (CreateTable t), Queried (CountRows t)]
     @ (if ins then [Executed (InsertRow t)] else []) @ [TxCommit]"




section \<open>Example patch stores, catalogs and databases\<close>

text \<open>
  A file system that holds the listed regular files and nothing else: any other name
  does not exist.
\<close>

definition regular_files :: "(string \<times> string) list \<Rightarrow> string \<Rightarrow> error + string" where
  "regular_files kvs name =
     (case map_of kvs name of
        None \<Rightarrow> Inl (PathError ''open'' name ''file does not exist'')
      | Some bytes \<Rightarrow> Inr bytes)"

text \<open>
  The patch store of the two scripts \<^verbatim>\<open>1_init.up.sql\<close> and
  \<^verbatim>\<open>2_seed.up.sql\<close> and its catalog; a store with a gap; a store with an
  unrelated \<^verbatim>\<open>notes.sql\<close>; the same with a first file whose number does not fit
  an \<^verbatim>\<open>int\<close>; a store with an up and a down script; a store with two up
  scripts and one down script; a store whose only script the database rejects; a
  store whose only entry is a directory with the name of a script.
\<close>

definition store_init_seed :: FS where
  "store_init_seed =
     \<lparr>dir_names = [''1_init.up.sql'', ''2_seed.up.sql''],
      file_bytes = regular_files [(''1_init.up.sql'', ''create table t(x int);''),
                                  (''2_seed.up.sql'', ''insert into t values (1);'')]\<rparr>"

definition catalog_init_seed :: Migrator where
  "catalog_init_seed =
     \<lparr>VersionTable = ''schema_version'', Filesystem = store_init_seed,
      MigrateUp = [\<lparr>Version = 1, Filename = ''1_init.up.sql''\<rparr>,
                   \<lparr>Version = 2, Filename = ''2_seed.up.sql''\<rparr>],
      MigrateDown = []\<rparr>"

definition store_gap :: FS where
  "store_gap =
     \<lparr>dir_names = [''1_a.up.sql'', ''2_b.up.sql'', ''4_d.up.sql''],
      file_bytes = (\<lambda>n. Inr [])\<rparr>"

definition store_notes :: FS where
  "store_notes =
     \<lparr>dir_names = [''1_init.up.sql'', ''notes.sql''],
      file_bytes = (\<lambda>n. Inr [])\<rparr>"

definition store_overflow :: FS where
  "store_overflow =
     \<lparr>dir_names = [''99999999999999999999_a.up.sql'', ''notes.sql''],
      file_bytes = (\<lambda>n. Inr [])\<rparr>"

definition store_paired :: FS where
  "store_paired =
     \<lparr>dir_names = [''1_init.down.sql'', ''1_init.up.sql''],
      file_bytes = (\<lambda>n. Inr [])\<rparr>"

definition catalog_paired :: Migrator where
  "catalog_paired =
     \<lparr>VersionTable = ''schema_version'', Filesystem = store_paired,
      MigrateUp = [\<lparr>Version = 1, Filename = ''1_init.up.sql''\<rparr>],
      MigrateDown = [\<lparr>Version = 1, Filename = ''1_init.down.sql''\<rparr>]\<rparr>"

definition store_two_up_one_down :: FS where
  "store_two_up_one_down =
     \<lparr>dir_names = [''1_a.down.sql'', ''1_a.up.sql'', ''2_b.up.sql''],
      file_bytes = (\<lambda>n. Inr [])\<rparr>"

definition store_bad :: FS where
  "store_bad =
     \<lparr>dir_names = [''1_bad.up.sql''],
      file_bytes = regular_files [(''1_bad.up.sql'', ''select 1/0;'')]\<rparr>"

definition catalog_bad :: Migrator where
  "catalog_bad =
     \<lparr>VersionTable = ''schema_version'', Filesystem = store_bad,
      MigrateUp = [\<lparr>Version = 1, Filename = ''1_bad.up.sql''\<rparr>],
      MigrateDown = []\<rparr>"

definition store_directory :: FS where
  "store_directory =
     \<lparr>dir_names = [''1_d.up.sql''],
      file_bytes = (\<lambda>n. if n = ''1_d.up.sql'' then Inl (PathError ''read'' n ''is a directory'')
                         else Inl (PathError ''open'' n ''file does not exist''))\<rparr>"

definition catalog_directory :: Migrator where
  "catalog_directory =
     \<lparr>VersionTable = ''schema_version'', Filesystem = store_directory,
      MigrateUp = [\<lparr>Version = 1, Filename = ''1_d.up.sql''\<rparr>],
      MigrateDown = []\<rparr>"

text \<open>
  A database whose user data is the list of the scripts that ran, in order; it rejects
  the script \<^verbatim>\<open>select 1/0;\<close> (division by zero) and runs every other one. A
  fresh database has no table; \<open>at_version v\<close> has the version table with its row
  at \<open>v\<close>.
\<close>

definition run_script :: "string \<Rightarrow> string list pgdb \<Rightarrow> error + string list pgdb" where
  "run_script sql d =
     (if sql = ''select 1/0;'' then Inl (PgError ''22012'')
      else Inr (d\<lparr>user_data := user_data d @ [sql]\<rparr>))"

definition fresh :: "string list pgdb world" where
  "fresh = \<lparr>db = \<lparr>tables = (\<lambda>t. None), user_data = []\<rparr>, log = []\<rparr>"

definition at_version :: "int \<Rightarrow> string list pgdb world" where
  "at_version v =
     \<lparr>db = \<lparr>tables = [''schema_version'' \<mapsto> Some v], user_data = []\<rparr>, log = []\<rparr>"

text \<open>
  The session that loses the race of two first runs: its count saw no row, and by the
  time its insert runs the other session's row is committed, so the key constraint
  rejects the insert. Everything else is the reference database.
\<close>

definition pg_lost_race :: "(string \<Rightarrow> 'u pgdb \<Rightarrow> error + 'u pgdb) \<Rightarrow> 'u pgdb Conn" where
  "pg_lost_race run =
     (pg run)\<lparr>Exec := (\<lambda>c d. case c of InsertRow t \<Rightarrow> Inl unique_violation
                                | _ \<Rightarrow> pg_Exec run c d)\<rparr>"

section \<open>The naming pattern and the scan\<close>

lemma FindStringSubmatch_groups:
  assumes "FindStringSubmatch f = Some (g1, g2, g3)"
  shows "g1 \<noteq> [] \<and> list_all is_digit g1 \<and> (g3 = ''up'' \<or> g3 = ''down'')"
  using assms
  by (auto simp: FindStringSubmatch_def Let_def list_all_iff split: list.splits if_splits dest: set_takeWhileD)

lemma Atoi_group:
  assumes "FindStringSubmatch f = Some (g1, g2, g3)"
  shows "Atoi g1 = (if decimal g1 > 2 ^ 63 - 1 then Inl (NumError g1 ''value out of range'') else Inr (decimal g1))"
  using FindStringSubmatch_groups[OF assms] by (simp add: Atoi_def)

lemma scan_Inr:
  "scan strict files ups downs = Inr (u, d) \<Longrightarrow>
     u = ups @ map migration_of (up_files files) \<and>
     d = downs @ map migration_of (down_files files) \<and>
     (\<forall>f\<in>set files. (strict \<longrightarrow> FindStringSubmatch f \<noteq> None) \<and> file_version f \<le> 2 ^ 63 - 1)"
proof (induction files arbitrary: ups downs)
  case Nil
  then show ?case by (simp add: up_files_def down_files_def)
next
  case (Cons f files)
  show ?case
  proof (cases "FindStringSubmatch f")
    case None
    with Cons.prems have s: "\<not> strict" and r: "scan strict files ups downs = Inr (u, d)"
      by (auto split: if_splits)
    from Cons.IH[OF r] None s show ?thesis
      by (simp add: up_files_def down_files_def file_direction_def file_version_def)
  next
    case (Some g)
    obtain g1 g2 g3 where g: "g = (g1, g2, g3)" by (cases g) auto
    note m = Some[unfolded g]
    from FindStringSubmatch_groups[OF m] have dir: "g3 = ''up'' \<or> g3 = ''down''" by simp
    from Cons.prems m have ok: "\<not> decimal g1 > 2 ^ 63 - 1"
      by (auto simp: Atoi_group[OF m] split: if_splits)
    have mig: "\<lparr>Version = decimal g1, Filename = f\<rparr> = migration_of f"
      by (simp add: migration_of_def file_version_def m)
    show ?thesis
    proof (cases "g3 = ''up''")
      case True
      with Cons.prems m ok have r: "scan strict files (ups @ [migration_of f]) downs = Inr (u, d)"
        by (simp add: Atoi_group[OF m] mig)
      from Cons.IH[OF r] True m ok show ?thesis
        by (simp add: up_files_def down_files_def file_direction_def file_version_def)
    next
      case False
      with dir have dn: "g3 = ''down''" by simp
      with Cons.prems m ok have r: "scan strict files ups (downs @ [migration_of f]) = Inr (u, d)"
        by (simp add: Atoi_group[OF m] mig)
      from Cons.IH[OF r] dn m ok show ?thesis
        by (simp add: up_files_def down_files_def file_direction_def file_version_def)
    qed
  qed
qed

lemma scan_ok:
  "\<forall>f\<in>set files. (strict \<longrightarrow> FindStringSubmatch f \<noteq> None) \<and> file_version f \<le> 2 ^ 63 - 1 \<Longrightarrow>
   scan strict files ups downs =
     Inr (ups @ map migration_of (up_files files), downs @ map migration_of (down_files files))"
proof (induction files arbitrary: ups downs)
  case Nil
  then show ?case by (simp add: up_files_def down_files_def)
next
  case (Cons f files)
  show ?case
  proof (cases "FindStringSubmatch f")
    case None
    with Cons show ?thesis
      by (simp add: up_files_def down_files_def file_direction_def)
  next
    case (Some g)
    obtain g1 g2 g3 where g: "g = (g1, g2, g3)" by (cases g) auto
    note m = Some[unfolded g]
    from FindStringSubmatch_groups[OF m] have dir: "g3 = ''up'' \<or> g3 = ''down''" by simp
    from Cons.prems m have ok: "\<not> decimal g1 > 2 ^ 63 - 1"
      by (simp add: file_version_def)
    have mig: "\<lparr>Version = decimal g1, Filename = f\<rparr> = migration_of f"
      by (simp add: migration_of_def file_version_def m)
    from Cons.prems have rest: "\<forall>f\<in>set files. (strict \<longrightarrow> FindStringSubmatch f \<noteq> None) \<and> file_version f \<le> 2 ^ 63 - 1"
      by simp
    from dir show ?thesis
      using m ok Cons.IH[OF rest]
      by (auto simp: Atoi_group[OF m] mig up_files_def down_files_def file_direction_def)
  qed
qed

lemma scan_append:
  "scan strict (xs @ ys) ups downs =
     (case scan strict xs ups downs of Inl e \<Rightarrow> Inl e | Inr (u, d) \<Rightarrow> scan strict ys u d)"
  by (induction xs arbitrary: ups downs) (auto simp: Let_def split: option.splits sum.splits)

lemma scan_strict_fails:
  assumes "f \<in> set files" and "FindStringSubmatch f = None"
  shows "\<exists>g\<in>set files.
           (scan True files ups downs = Inl (InvalidFilename g) \<and> FindStringSubmatch g = None)
         \<or> (\<exists>e. scan True files ups downs = Inl (Wrapf (''bad filename: '' @ g) e))"
  using assms
proof (induction files arbitrary: ups downs)
  case Nil
  then show ?case by simp
next
  case (Cons a files)
  show ?case
  proof (cases "FindStringSubmatch a")
    case None
    then show ?thesis by simp
  next
    case (Some g)
    obtain g1 g2 g3 where g: "g = (g1, g2, g3)" by (cases g) auto
    note m = Some[unfolded g]
    from Cons.prems m have mem: "f \<in> set files" by auto
    show ?thesis
    proof (cases "Atoi g1")
      case (Inl e)
      with m show ?thesis by simp
    next
      case (Inr n)
      from Cons.IH[OF mem Cons.prems(2)] m Inr show ?thesis
        by (simp add: Let_def)
    qed
  qed
qed

lemma scan_loose_filter:
  "scan False files ups downs
     = scan True (filter matches_pattern files) ups downs"
proof (induction files arbitrary: ups downs)
  case Nil
  show ?case by simp
next
  case (Cons a files)
  show ?case
  proof (cases "FindStringSubmatch a")
    case None
    then show ?thesis by (simp add: Cons.IH matches_pattern_def)
  next
    case (Some g)
    then show ?thesis by (simp add: Cons.IH matches_pattern_def Let_def split: prod.splits sum.splits)
  qed
qed

section \<open>The sequence check and the pairing check\<close>

lemma check_sequence_nth:
  "check_sequence i vs = None \<longleftrightarrow> (\<forall>k<length vs. Version (vs ! k) = int i + int k + 1)"
proof (induction vs arbitrary: i)
  case Nil
  show ?case by simp
next
  case (Cons v vs)
  show ?case
    by (simp add: Cons.IH All_less_Suc2 add.commute add.left_commute)
qed

lemma check_sequence_None:
  "check_sequence 0 vs = None \<longleftrightarrow> map Version vs = [1 .. int (length vs)]"
proof -
  have "map Version vs = [1 .. int (length vs)]
        \<longleftrightarrow> (\<forall>k<length vs. Version (vs ! k) = int k + 1)"
  proof
    assume eq: "map Version vs = [1 .. int (length vs)]"
    show "\<forall>k<length vs. Version (vs ! k) = int k + 1"
    proof (intro allI impI)
      fix k assume k: "k < length vs"
      then have "Version (vs ! k) = map Version vs ! k" by simp
      also have "\<dots> = [1 .. int (length vs)] ! k" by (simp only: eq)
      also have "\<dots> = 1 + int k" using k by (intro nth_upto) simp
      finally show "Version (vs ! k) = int k + 1" by simp
    qed
  next
    assume a: "\<forall>k<length vs. Version (vs ! k) = int k + 1"
    show "map Version vs = [1 .. int (length vs)]"
    proof (rule nth_equalityI)
      show "length (map Version vs) = length [1 .. int (length vs)]" by simp
    next
      fix k assume "k < length (map Version vs)"
      then have k: "k < length vs" by simp
      have "[1 .. int (length vs)] ! k = 1 + int k" using k by (intro nth_upto) simp
      with a k show "map Version vs ! k = [1 .. int (length vs)] ! k" by simp
    qed
  qed
  then show ?thesis by (simp add: check_sequence_nth)
qed

lemma sort_map_Version:
  "sort (map Version xs) = map Version (sort_key Version xs)"
  by (rule properties_for_sort) simp_all

lemma sorted_versions_unique:
  assumes "sort (map Version xs) = [1 .. int n]"
  shows "map Version (sort_key Version xs) = [1 .. int (length xs)]"
proof -
  have "length (sort (map Version xs)) = length [1 .. int n]"
    using assms by simp
  then have "n = length xs" by simp
  with assms show ?thesis by (simp add: sort_map_Version)
qed

lemma check_names_None:
  "length ups = length downs \<Longrightarrow>
   check_names ups downs = None \<longleftrightarrow>
     (\<forall>i<length ups. TrimSuffix (Filename (ups ! i)) ''.up.sql''
                      = TrimSuffix (Filename (downs ! i)) ''.down.sql'')"
proof (induction ups downs rule: check_names.induct)
  case (1 downs)
  show ?case by simp
next
  case (2 v ups)
  then show ?case by simp
next
  case (3 v ups d downs)
  then show ?case by (simp add: All_less_Suc2)
qed

section \<open>What a built catalog satisfies\<close>

lemma newMigrator_Inr:
  assumes ok: "newMigrator fsys strict = Inr m"
    and glob: "Glob_sql fsys = Inr files"
  shows "MigrateUp m = sort_key Version (map migration_of (up_files files))"
    and "MigrateDown m = sort_key Version (map migration_of (down_files files))"
    and "check_sequence 0 (MigrateUp m) = None"
    and "VersionTable m = DefaultVersionTable"
    and "Filesystem m = fsys"
    and "MigrateDown m \<noteq> [] \<Longrightarrow>
           length (MigrateUp m) = length (MigrateDown m) \<and>
           check_sequence 0 (MigrateDown m) = None \<and>
           check_names (MigrateUp m) (MigrateDown m) = None"
    and "\<forall>f\<in>set files. (strict \<longrightarrow> FindStringSubmatch f \<noteq> None) \<and> file_version f \<le> 2 ^ 63 - 1"
proof -
  from ok glob obtain u d where sc: "scan strict files [] [] = Inr (u, d)"
    by (auto simp: newMigrator_def split: sum.splits)
  from scan_Inr[OF sc] have u: "u = map migration_of (up_files files)"
    and d: "d = map migration_of (down_files files)"
    and all: "\<forall>f\<in>set files. (strict \<longrightarrow> FindStringSubmatch f \<noteq> None) \<and> file_version f \<le> 2 ^ 63 - 1"
    by simp_all
  from ok glob sc have seq: "check_sequence 0 (sort_key Version u) = None"
    by (auto simp: newMigrator_def Let_def split: option.splits)
  show "\<forall>f\<in>set files. (strict \<longrightarrow> FindStringSubmatch f \<noteq> None) \<and> file_version f \<le> 2 ^ 63 - 1"
    by (rule all)
  show "MigrateUp m = sort_key Version (map migration_of (up_files files))"
    using ok glob sc seq u by (auto simp: newMigrator_def Let_def split: if_splits option.splits)
  then show "check_sequence 0 (MigrateUp m) = None" using seq u by simp
  show "MigrateDown m = sort_key Version (map migration_of (down_files files))"
    using ok glob sc seq d by (auto simp: newMigrator_def Let_def split: if_splits option.splits)
  show "VersionTable m = DefaultVersionTable"
    using ok glob sc seq by (auto simp: newMigrator_def Let_def split: if_splits option.splits)
  show "Filesystem m = fsys"
    using ok glob sc seq by (auto simp: newMigrator_def Let_def split: if_splits option.splits)
  show "length (MigrateUp m) = length (MigrateDown m) \<and>
           check_sequence 0 (MigrateDown m) = None \<and>
           check_names (MigrateUp m) (MigrateDown m) = None" if "MigrateDown m \<noteq> []"
    using that ok glob sc seq by (auto simp: newMigrator_def Let_def split: if_splits option.splits)
qed

lemma Latest_dense:
  assumes "map Version (MigrateUp m) = [1 .. int (length (MigrateUp m))]"
  shows "Latest m = int (length (MigrateUp m))"
proof (cases "length (MigrateUp m) = 0")
  case True
  then show ?thesis by (simp add: Latest_def)
next
  case False
  let ?n = "length (MigrateUp m)"
  from False obtain k where k: "?n = Suc k" by (cases ?n) auto
  have "Version (MigrateUp m ! k) = map Version (MigrateUp m) ! k"
    using k by simp
  also have "\<dots> = [1 .. int ?n] ! k" by (simp only: assms[symmetric])
  also have "\<dots> = 1 + int k" using k by (intro nth_upto) simp
  finally show ?thesis using k by (simp add: Latest_def)
qed

lemma Glob_sql_matching_only:
  "Glob_sql fsys = Inr files \<Longrightarrow>
   Glob_sql (matching_only fsys) = Inr (filter matches_pattern files)"
  by (auto simp: Glob_sql_def matching_only_def conj_commute)

lemma newMigrator_loose:
  "newMigrator fsys False =
     map_sum id (\<lambda>m. m\<lparr>Filesystem := fsys\<rparr>) (newMigrator (matching_only fsys) True)"
proof -
  obtain files where glob: "Glob_sql fsys = Inr files" by (simp add: Glob_sql_def)
  note glob' = Glob_sql_matching_only[OF glob]
  define S where "S = scan True (filter matches_pattern files) [] []"
  have l: "scan False files [] [] = S"
    by (simp only: S_def scan_loose_filter)
  show ?thesis
  proof (cases S)
    case (Inl e)
    then show ?thesis
      by (simp add: newMigrator_def glob glob' l S_def[symmetric])
  next
    case (Inr p)
    obtain u d where p: "p = (u, d)" by (cases p) auto
    show ?thesis
      by (simp add: newMigrator_def glob glob' l S_def[symmetric] Inr p Let_def split: option.splits)
  qed
qed

lemmas catalog_eval =
  New_def NewLoose_def newMigrator_def Glob_sql_def FindStringSubmatch_def is_digit_def
  HasSuffix_def TrimSuffix_def newline_def decimal_def Atoi_def DefaultVersionTable_def
  file_direction_def file_version_def up_files_def down_files_def migration_of_def


section \<open>Catalog construction: the properties\<close>

text \<open>
  Claim C5. A valid up-only patch set of \<open>N\<close> files with the versions
  \<open>1..N\<close>, all matching the naming pattern, builds (strictly and loosely), and
  \<open>Latest\<close> of the catalog is \<open>N\<close>; \<open>Latest\<close> of a catalog with no up
  migration is 0. The listing is a Go slice, so it has fewer than \<open>2^63\<close> entries.
\<close>

theorem build_dense_up_only:
  assumes glob: "Glob_sql fsys = Inr files"
    and ups: "\<forall>f\<in>set files. file_direction f = Some ''up''"
    and dense: "sort (map file_version files) = [1 .. int N]"
    and len: "length files < 2 ^ 63"
  shows "(\<exists>m. newMigrator fsys strict = Inr m \<and> Latest m = int N
              \<and> map Version (MigrateUp m) = [1 .. int N] \<and> MigrateDown m = [])
         \<and> (\<forall>m. MigrateUp m = [] \<longrightarrow> Latest m = 0)"
proof -
  have n: "N = length files"
  proof -
    have "length (sort (map file_version files)) = length [1 .. int N]"
      by (simp only: dense)
    then show ?thesis by simp
  qed
  have upf: "up_files files = files" "down_files files = []"
    using ups by (simp_all add: up_files_def down_files_def)
  have rng: "file_version f \<le> 2 ^ 63 - 1" if "f \<in> set files" for f
  proof -
    from that have "file_version f \<in> set (sort (map file_version files))" by simp
    then have "file_version f \<in> {1 .. int N}" by (simp only: dense set_upto)
    then have "file_version f \<le> int (length files)" using n by simp
    also have "\<dots> \<le> 2 ^ 63 - 1"
    proof -
      from len have "int (length files) < int (2 ^ 63)" by (simp only: of_nat_less_iff)
      then show ?thesis by simp
    qed
    finally show ?thesis .
  qed
  have mt: "FindStringSubmatch f \<noteq> None" if "f \<in> set files" for f
  proof -
    from ups that have "file_direction f = Some ''up''" by blast
    then show ?thesis by (auto simp: file_direction_def split: option.splits)
  qed
  have sc: "scan strict files [] [] = Inr (map migration_of files, [])"
    using scan_ok[of files strict "[]" "[]"] rng mt upf by simp
  have vs: "map Version (map migration_of files) = map file_version files"
    by (simp add: migration_of_def comp_def)
  have seq: "map Version (sort_key Version (map migration_of files)) = [1 .. int (length (map migration_of files))]"
    by (rule sorted_versions_unique[of _ N]) (simp only: vs dense)
  then have chk: "check_sequence 0 (sort_key Version (map migration_of files)) = None"
    by (simp add: check_sequence_None)
  let ?m = "\<lparr>VersionTable = DefaultVersionTable, Filesystem = fsys,
             MigrateUp = sort_key Version (map migration_of files), MigrateDown = []\<rparr>"
  have res: "newMigrator fsys strict = Inr ?m"
    by (simp add: newMigrator_def glob sc chk)
  have "Latest ?m = int (length (MigrateUp ?m))"
    by (rule Latest_dense) (use seq in simp)
  then have "Latest ?m = int N" using n by simp
  moreover have "map Version (MigrateUp ?m) = [1 .. int N]" using seq n by simp
  moreover have "\<forall>m. MigrateUp m = [] \<longrightarrow> Latest m = 0" by (simp add: Latest_def)
  ultimately show ?thesis using res by simp
qed

text \<open>
  The two scripts \<^verbatim>\<open>1_init.up.sql\<close> and \<^verbatim>\<open>2_seed.up.sql\<close>: the build
  succeeds and \<open>Latest\<close> is 2.
\<close>

theorem build_dense_up_only_witness:
  "Glob_sql store_init_seed = Inr [''1_init.up.sql'', ''2_seed.up.sql'']
   \<and> sort (map file_version [''1_init.up.sql'', ''2_seed.up.sql'']) = [1, 2]
   \<and> (\<exists>m. New store_init_seed = Inr m \<and> Latest m = 2
          \<and> map Version (MigrateUp m) = [1, 2] \<and> MigrateDown m = [])"
proof -
  let ?files = "[''1_init.up.sql'', ''2_seed.up.sql'']"
  have g: "Glob_sql store_init_seed = Inr ?files"
    by (simp add: Glob_sql_def HasSuffix_def store_init_seed_def)
  have d: "\<forall>f\<in>set ?files. file_direction f = Some ''up''"
    by (simp add: catalog_eval)
  have v: "sort (map file_version ?files) = [1, 2]"
    by (simp add: catalog_eval)
  have r: "[1, 2] = [1 .. int 2]" by (simp add: upto.simps)
  have l: "length ?files < 2 ^ 63" by simp
  from build_dense_up_only[OF g d v[unfolded r] l, of True] g v show ?thesis
    by (simp add: New_def upto.simps)
qed

text \<open>
  Claim C3. When the versions of the up files, sorted, are not \<open>1, 2, ..., n\<close> for
  their number \<open>n\<close> (a gap, a start other than 1, a version twice), \<open>New\<close> and
  \<open>NewLoose\<close> both return an error, and so no catalog.
\<close>

theorem build_rejects_non_dense_up:
  assumes "Glob_sql fsys = Inr files"
    and "sort (map file_version (up_files files)) \<noteq> [1 .. int (length (up_files files))]"
  shows "(\<exists>err. New fsys = Inl err) \<and> (\<exists>err. NewLoose fsys = Inl err)"
proof -
  have "\<exists>err. newMigrator fsys strict = Inl err" for strict
  proof (cases "newMigrator fsys strict")
    case (Inl err)
    then show ?thesis by blast
  next
    case (Inr m)
    have vs: "map Version (map migration_of (up_files files)) = map file_version (up_files files)"
      by (simp add: migration_of_def comp_def)
    from newMigrator_Inr(1,3)[OF Inr assms(1)]
    have "map Version (sort_key Version (map migration_of (up_files files)))
            = [1 .. int (length (up_files files))]"
      by (simp add: check_sequence_None)
    then have "sort (map file_version (up_files files)) = [1 .. int (length (up_files files))]"
      by (simp only: sort_map_Version[symmetric] vs)
    with assms(2) show ?thesis by simp
  qed
  then show ?thesis by (simp add: New_def NewLoose_def)
qed

text \<open>
  The versions 1, 2, 4.
\<close>

theorem build_rejects_non_dense_up_witness:
  "Glob_sql store_gap = Inr [''1_a.up.sql'', ''2_b.up.sql'', ''4_d.up.sql'']
   \<and> sort (map file_version (up_files [''1_a.up.sql'', ''2_b.up.sql'', ''4_d.up.sql''])) = [1, 2, 4]
   \<and> (\<exists>err. New store_gap = Inl err) \<and> (\<exists>err. NewLoose store_gap = Inl err)"
proof -
  have g: "Glob_sql store_gap = Inr [''1_a.up.sql'', ''2_b.up.sql'', ''4_d.up.sql'']"
    by (simp add: Glob_sql_def HasSuffix_def store_gap_def)
  have v: "sort (map file_version (up_files [''1_a.up.sql'', ''2_b.up.sql'', ''4_d.up.sql''])) = [1, 2, 4]"
    by (simp add: catalog_eval)
  have u: "length (up_files [''1_a.up.sql'', ''2_b.up.sql'', ''4_d.up.sql'']) = 3"
    by (simp add: catalog_eval)
  have n: "sort (map file_version (up_files [''1_a.up.sql'', ''2_b.up.sql'', ''4_d.up.sql'']))
        \<noteq> [1 .. int (length (up_files [''1_a.up.sql'', ''2_b.up.sql'', ''4_d.up.sql'']))]"
    unfolding v u by (simp add: upto.simps)
  from build_rejects_non_dense_up[OF g n] g v show ?thesis by simp
qed

text \<open>
  Claim C6. When the patch set holds a down script, a build that succeeds has the
  sorted up files as its up sequence and the sorted down files as its down sequence,
  the two are equally long, the versions of the down sequence are \<open>1, 2, ..., n\<close>,
  and at every index the up file without \<^verbatim>\<open>.up.sql\<close> is the down file without
  \<^verbatim>\<open>.down.sql\<close>. So the build fails when the number of up files and the number
  of down files differ, and when a base name differs at some index of the two sorted
  sequences.
\<close>

theorem down_pairing_validated:
  assumes glob: "Glob_sql fsys = Inr files"
    and down: "\<exists>f\<in>set files. file_direction f = Some ''down''"
  shows "(\<forall>m. newMigrator fsys strict = Inr m \<longrightarrow>
            MigrateUp m = sort_key Version (map migration_of (up_files files))
          \<and> MigrateDown m = sort_key Version (map migration_of (down_files files))
          \<and> length (MigrateDown m) = length (MigrateUp m)
          \<and> map Version (MigrateDown m) = [1 .. int (length (MigrateDown m))]
          \<and> (\<forall>i<length (MigrateUp m).
                TrimSuffix (Filename (MigrateUp m ! i)) ''.up.sql''
                  = TrimSuffix (Filename (MigrateDown m ! i)) ''.down.sql''))
       \<and> (length (up_files files) \<noteq> length (down_files files) \<longrightarrow>
            (\<exists>err. newMigrator fsys strict = Inl err))
       \<and> ((\<exists>i<length (up_files files).
              TrimSuffix (Filename (sort_key Version (map migration_of (up_files files)) ! i))
                  ''.up.sql''
                \<noteq> TrimSuffix
                    (Filename (sort_key Version (map migration_of (down_files files)) ! i))
                    ''.down.sql'') \<longrightarrow>
            (\<exists>err. newMigrator fsys strict = Inl err))"
proof -
  let ?ups = "sort_key Version (map migration_of (up_files files))"
  let ?downs = "sort_key Version (map migration_of (down_files files))"
  have built: "MigrateUp m = ?ups \<and> MigrateDown m = ?downs
          \<and> length (MigrateDown m) = length (MigrateUp m)
          \<and> map Version (MigrateDown m) = [1 .. int (length (MigrateDown m))]
          \<and> (\<forall>i<length (MigrateUp m).
                TrimSuffix (Filename (MigrateUp m ! i)) ''.up.sql''
                  = TrimSuffix (Filename (MigrateDown m ! i)) ''.down.sql'')"
    if ok: "newMigrator fsys strict = Inr m" for m
  proof -
    note r = newMigrator_Inr[OF ok glob]
    from down have "down_files files \<noteq> []"
      by (auto simp: down_files_def filter_empty_conv)
    then have "length (MigrateDown m) \<noteq> 0" by (simp add: r(2))
    then have ne: "MigrateDown m \<noteq> []" by simp
    from r(6)[OF ne] have len: "length (MigrateUp m) = length (MigrateDown m)"
      and seq: "check_sequence 0 (MigrateDown m) = None"
      and nm: "check_names (MigrateUp m) (MigrateDown m) = None"
      by simp_all
    from nm have "\<forall>i<length (MigrateUp m).
                 TrimSuffix (Filename (MigrateUp m ! i)) ''.up.sql''
                   = TrimSuffix (Filename (MigrateDown m ! i)) ''.down.sql''"
      by (simp only: check_names_None[OF len])
    with len seq r(1) r(2) show ?thesis by (simp add: check_sequence_None)
  qed
  have count: "\<exists>err. newMigrator fsys strict = Inl err"
    if ne: "length (up_files files) \<noteq> length (down_files files)"
  proof (cases "newMigrator fsys strict")
    case (Inl err)
    then show ?thesis by blast
  next
    case (Inr m)
    from built[OF Inr] have u: "MigrateUp m = ?ups" and d: "MigrateDown m = ?downs"
      and len: "length (MigrateDown m) = length (MigrateUp m)"
      by blast+
    from len have "length ?downs = length ?ups" by (simp only: u d)
    then have "length (down_files files) = length (up_files files)" by simp
    with ne show ?thesis by simp
  qed
  have names: "\<exists>err. newMigrator fsys strict = Inl err"
    if ex: "\<exists>i<length (up_files files).
              TrimSuffix (Filename (?ups ! i)) ''.up.sql''
                \<noteq> TrimSuffix (Filename (?downs ! i)) ''.down.sql''"
  proof (cases "newMigrator fsys strict")
    case (Inl err)
    then show ?thesis by blast
  next
    case (Inr m)
    from built[OF Inr] have u: "MigrateUp m = ?ups" and d: "MigrateDown m = ?downs"
      and eq: "\<forall>i<length (MigrateUp m).
                TrimSuffix (Filename (MigrateUp m ! i)) ''.up.sql''
                  = TrimSuffix (Filename (MigrateDown m ! i)) ''.down.sql''"
      by blast+
    from ex obtain i where i: "i < length (up_files files)"
      and ne: "TrimSuffix (Filename (?ups ! i)) ''.up.sql''
                \<noteq> TrimSuffix (Filename (?downs ! i)) ''.down.sql''"
      by blast
    from i have "i < length (MigrateUp m)" by (simp add: u)
    with eq have "TrimSuffix (Filename (MigrateUp m ! i)) ''.up.sql''
                  = TrimSuffix (Filename (MigrateDown m ! i)) ''.down.sql''"
      by blast
    with ne show ?thesis by (simp add: u d)
  qed
  from built count names show ?thesis by blast
qed

text \<open>
  The pair \<^verbatim>\<open>1_init.up.sql\<close>, \<^verbatim>\<open>1_init.down.sql\<close> builds; two up scripts
  with one down script do not.
\<close>

theorem down_pairing_validated_witness:
  "newMigrator store_paired True = Inr catalog_paired
   \<and> MigrateUp catalog_paired = [\<lparr>Version = 1, Filename = ''1_init.up.sql''\<rparr>]
   \<and> length (MigrateDown catalog_paired) = length (MigrateUp catalog_paired)
   \<and> map Version (MigrateDown catalog_paired) = [1]
   \<and> TrimSuffix (Filename (MigrateUp catalog_paired ! 0)) ''.up.sql''
       = TrimSuffix (Filename (MigrateDown catalog_paired ! 0)) ''.down.sql''
   \<and> length (up_files [''1_a.down.sql'', ''1_a.up.sql'', ''2_b.up.sql'']) = 2
   \<and> length (down_files [''1_a.down.sql'', ''1_a.up.sql'', ''2_b.up.sql'']) = 1
   \<and> (\<exists>err. newMigrator store_two_up_one_down True = Inl err)"
proof -
  let ?files = "[''1_init.down.sql'', ''1_init.up.sql'']"
  let ?files2 = "[''1_a.down.sql'', ''1_a.up.sql'', ''2_b.up.sql'']"
  have ok: "newMigrator store_paired True = Inr catalog_paired"
    by (simp add: catalog_eval store_paired_def catalog_paired_def)
  have g: "Glob_sql store_paired = Inr ?files"
    by (simp add: Glob_sql_def HasSuffix_def store_paired_def)
  have d: "\<exists>f\<in>set ?files. file_direction f = Some ''down''"
    by (simp add: catalog_eval)
  have g2: "Glob_sql store_two_up_one_down = Inr ?files2"
    by (simp add: Glob_sql_def HasSuffix_def store_two_up_one_down_def)
  have d2: "\<exists>f\<in>set ?files2. file_direction f = Some ''down''"
    by (simp add: catalog_eval)
  have u2: "length (up_files ?files2) = 2" and l2: "length (down_files ?files2) = 1"
    by (simp_all add: catalog_eval)
  from down_pairing_validated[OF g d, of True] ok
  have 1: "MigrateUp catalog_paired = [\<lparr>Version = 1, Filename = ''1_init.up.sql''\<rparr>]
   \<and> length (MigrateDown catalog_paired) = length (MigrateUp catalog_paired)
   \<and> map Version (MigrateDown catalog_paired) = [1]
   \<and> TrimSuffix (Filename (MigrateUp catalog_paired ! 0)) ''.up.sql''
       = TrimSuffix (Filename (MigrateDown catalog_paired ! 0)) ''.down.sql''"
    by (simp add: catalog_paired_def upto.simps catalog_eval)
  from down_pairing_validated[OF g2 d2, of True] u2 l2
  have 2: "\<exists>err. newMigrator store_two_up_one_down True = Inl err"
    by simp
  from ok 1 u2 l2 2 show ?thesis by blast
qed

text \<open>
  Claim C7, as the program has it. When a listed \<^verbatim>\<open>*.sql\<close> file \<open>f\<close> does not
  match the pattern, the strict build fails with an error that names a file of the
  listing: a file that does not match, or a file that matches and whose number does
  not fit an \<^verbatim>\<open>int\<close>. The scan stops at the first file it rejects, so the error
  is \<open>InvalidFilename f\<close> when every file listed before \<open>f\<close> matches and has a
  number that fits. The loose build is the strict build of the patch store without
  the files that do not match (the catalog keeps the store it was built from).
\<close>

theorem strict_rejects_loose_ignores:
  assumes glob: "Glob_sql fsys = Inr files"
    and mem: "f \<in> set files"
    and bad: "FindStringSubmatch f = None"
  shows "(\<exists>g\<in>set files.
            (New fsys = Inl (InvalidFilename g) \<and> FindStringSubmatch g = None)
          \<or> (\<exists>e. New fsys = Inl (Wrapf (''bad filename: '' @ g) e)))
       \<and> ((\<forall>g\<in>set (takeWhile (\<lambda>g. g \<noteq> f) files).
              FindStringSubmatch g \<noteq> None \<and> file_version g \<le> 2 ^ 63 - 1)
            \<longrightarrow> New fsys = Inl (InvalidFilename f))
       \<and> NewLoose fsys = map_sum id (\<lambda>m. m\<lparr>Filesystem := fsys\<rparr>) (New (matching_only fsys))"
proof (intro conjI impI)
  from scan_strict_fails[OF mem bad, of "[]" "[]"]
  show "\<exists>g\<in>set files.
            (New fsys = Inl (InvalidFilename g) \<and> FindStringSubmatch g = None)
          \<or> (\<exists>e. New fsys = Inl (Wrapf (''bad filename: '' @ g) e))"
    by (auto simp: New_def newMigrator_def glob)
next
  assume pre: "\<forall>g\<in>set (takeWhile (\<lambda>g. g \<noteq> f) files).
              FindStringSubmatch g \<noteq> None \<and> file_version g \<le> 2 ^ 63 - 1"
  let ?pre = "takeWhile (\<lambda>g. g \<noteq> f) files"
  let ?post = "dropWhile (\<lambda>g. g \<noteq> f) files"
  from mem have "?post \<noteq> []" by (auto simp: dropWhile_eq_Nil_conv)
  moreover have "?post \<noteq> [] \<Longrightarrow> hd ?post = f" using hd_dropWhile[of "\<lambda>g. g \<noteq> f" files] by simp
  ultimately obtain rest where post: "?post = f # rest" by (cases ?post) auto
  have split: "files = ?pre @ f # rest" using post takeWhile_dropWhile_id[of "\<lambda>g. g \<noteq> f" files] by simp
  have "scan True ?pre [] [] = Inr (map migration_of (up_files ?pre), map migration_of (down_files ?pre))"
    using scan_ok[of ?pre True "[]" "[]"] pre by simp
  then have "scan True (?pre @ f # rest) [] [] = Inl (InvalidFilename f)"
    by (simp add: scan_append bad)
  with split have "scan True files [] [] = Inl (InvalidFilename f)" by simp
  then show "New fsys = Inl (InvalidFilename f)"
    by (simp add: New_def newMigrator_def glob)
next
  show "NewLoose fsys = map_sum id (\<lambda>m. m\<lparr>Filesystem := fsys\<rparr>) (New (matching_only fsys))"
    by (simp add: New_def NewLoose_def newMigrator_loose)
qed

text \<open>
  The scripts \<^verbatim>\<open>1_init.up.sql\<close> and \<^verbatim>\<open>notes.sql\<close>: the strict build
  names \<^verbatim>\<open>notes.sql\<close>, the loose build has the one migration.
\<close>

theorem strict_rejects_loose_ignores_witness:
  "Glob_sql store_notes = Inr [''1_init.up.sql'', ''notes.sql'']
   \<and> FindStringSubmatch ''notes.sql'' = None
   \<and> New store_notes = Inl (InvalidFilename ''notes.sql'')
   \<and> NewLoose store_notes
       = Inr \<lparr>VersionTable = ''schema_version'', Filesystem = store_notes,
              MigrateUp = [\<lparr>Version = 1, Filename = ''1_init.up.sql''\<rparr>], MigrateDown = []\<rparr>"
proof -
  let ?files = "[''1_init.up.sql'', ''notes.sql'']"
  have g: "Glob_sql store_notes = Inr ?files"
    by (simp add: Glob_sql_def HasSuffix_def store_notes_def)
  have m: "''notes.sql'' \<in> set ?files" by simp
  have b: "FindStringSubmatch ''notes.sql'' = None"
    by (simp add: catalog_eval)
  have p: "\<forall>g\<in>set (takeWhile (\<lambda>g. g \<noteq> ''notes.sql'') ?files).
              FindStringSubmatch g \<noteq> None \<and> file_version g \<le> 2 ^ 63 - 1"
    by (simp add: catalog_eval)
  have s: "New (matching_only store_notes)
            = Inr \<lparr>VersionTable = ''schema_version'', Filesystem = matching_only store_notes,
              MigrateUp = [\<lparr>Version = 1, Filename = ''1_init.up.sql''\<rparr>], MigrateDown = []\<rparr>"
    by (simp add: catalog_eval matching_only_def matches_pattern_def store_notes_def)
  from strict_rejects_loose_ignores[OF g m b] p g b show ?thesis
    by (simp add: s)
qed

text \<open>
  Claim C7 as it was stated has the strict build name the file that does not match.
  With \<^verbatim>\<open>99999999999999999999_a.up.sql\<close> listed before \<^verbatim>\<open>notes.sql\<close>, the
  strict build fails on the first file, whose number is out of range, and the error
  does not name \<^verbatim>\<open>notes.sql\<close>.
\<close>

theorem strict_names_other_file_counterexample:
  "Glob_sql store_overflow = Inr [''99999999999999999999_a.up.sql'', ''notes.sql'']
   \<and> FindStringSubmatch ''notes.sql'' = None
   \<and> New store_overflow
       = Inl (Wrapf ''bad filename: 99999999999999999999_a.up.sql''
               (NumError ''99999999999999999999'' ''value out of range''))"
  by (simp add: catalog_eval store_overflow_def)

section \<open>Transactions\<close>

text \<open>
  The two transactions of the program, written out for any connection: every branch
  with its result, the database it leaves and the events it adds.
\<close>

lemma pg_simps:
  "Begin (pg run) d = None" "Commit (pg run) d = None"
  "Exec (pg run) = pg_Exec run" "QueryRow (pg run) = pg_QueryRow"
  by (simp_all add: pg_def)

lemma BeginFunc_Inl_db:
  "BeginFunc conn fn w = (Inl e, w') \<Longrightarrow> db w' = db w"
  by (auto simp: BeginFunc_def emit_def split: option.splits prod.splits sum.splits)

lemma ReadFile_db:
  "ReadFile fsys name w = (r, w') \<Longrightarrow> db w' = db w \<and> log w' = log w @ [FileRead name]"
  by (auto simp: ReadFile_def emit_def split: sum.splits)

lemma initializeSchemaVersion_unfold:
  "initializeSchemaVersion conn m w =
     (let t = VersionTable m in
      case Begin conn (db w) of
        Some err \<Rightarrow> (Inl (Wrapf (''while creating version table '' @ t) err), w)
      | None \<Rightarrow>
          (case Exec conn (CreateTable t) (db w) of
             Inl err \<Rightarrow>
               (Inl (Wrapf (''while creating version table '' @ t) err),
                \<lparr>db = db w, log = log w @ [TxBegin, Executed (CreateTable t), TxRollback]\<rparr>)
           | Inr d1 \<Rightarrow>
               (case QueryRow conn (CountRows t) d1 of
                  Inl err \<Rightarrow>
                    (Inl (Wrapf (''while creating version table '' @ t) err),
                     \<lparr>db = db w,
                      log = log w @ [TxBegin, Executed (CreateTable t), Queried (CountRows t),
                                     TxRollback]\<rparr>)
                | Inr n \<Rightarrow>
                    if n > 0 then
                      (case Commit conn d1 of
                         Some err \<Rightarrow>
                           (Inl (Wrapf (''while creating version table '' @ t) err),
                            \<lparr>db = db w,
                             log = log w @ [TxBegin, Executed (CreateTable t),
                                            Queried (CountRows t), TxRollback]\<rparr>)
                       | None \<Rightarrow>
                           (Inr (),
                            \<lparr>db = d1,
                             log = log w @ [TxBegin, Executed (CreateTable t),
                                            Queried (CountRows t), TxCommit]\<rparr>))
                    else
                      (case Exec conn (InsertRow t) d1 of
                         Inl err \<Rightarrow>
                           (Inl (Wrapf (''while creating version table '' @ t) err),
                            \<lparr>db = db w,
                             log = log w @ [TxBegin, Executed (CreateTable t),
                                            Queried (CountRows t), Executed (InsertRow t),
                                            TxRollback]\<rparr>)
                       | Inr d2 \<Rightarrow>
                           (case Commit conn d2 of
                              Some err \<Rightarrow>
                                (Inl (Wrapf (''while creating version table '' @ t) err),
                                 \<lparr>db = db w,
                                  log = log w @ [TxBegin, Executed (CreateTable t),
                                                 Queried (CountRows t), Executed (InsertRow t),
                                                 TxRollback]\<rparr>)
                            | None \<Rightarrow>
                                (Inr (),
                                 \<lparr>db = d2,
                                  log = log w @ [TxBegin, Executed (CreateTable t),
                                                 Queried (CountRows t), Executed (InsertRow t),
                                                 TxCommit]\<rparr>))))))"
  by (simp add: initializeSchemaVersion_def BeginFunc_def tx_QueryRow_def tx_Exec_def emit_def Let_def
      split: option.splits sum.splits)

lemma Apply_unfold:
  "Apply conn m before after filename w =
     (let t = VersionTable m; l0 = log w @ [FileRead filename] in
      case file_bytes (Filesystem m) filename of
        Inl err \<Rightarrow>
          (Inl (Wrapf ''while reading patch file'' err), \<lparr>db = db w, log = l0\<rparr>)
      | Inr sql \<Rightarrow>
          (case Begin conn (db w) of
             Some err \<Rightarrow>
               (Inl (Wrapf (''while applying '' @ filename) err), \<lparr>db = db w, log = l0\<rparr>)
           | None \<Rightarrow>
               (case QueryRow conn (SelectVersion t) (db w) of
                  Inl err \<Rightarrow>
                    (Inl (Wrapf (''while applying '' @ filename)
                           (Wrapf ''while reading current version'' err)),
                     \<lparr>db = db w,
                      log = l0 @ [TxBegin, Queried (SelectVersion t), TxRollback]\<rparr>)
                | Inr current \<Rightarrow>
                    if current \<noteq> before then
                      (Inl (Wrapf (''while applying '' @ filename)
                             (ExpectedCurrentVersion before current)),
                       \<lparr>db = db w,
                        log = l0 @ [TxBegin, Queried (SelectVersion t), TxRollback]\<rparr>)
                    else
                      (case Exec conn (UpdateVersion t after) (db w) of
                         Inl err \<Rightarrow>
                           (Inl (Wrapf (''while applying '' @ filename)
                                  (Wrapf ''while updating current version'' err)),
                            \<lparr>db = db w,
                             log = l0 @ [TxBegin, Queried (SelectVersion t),
                                         Executed (UpdateVersion t after), TxRollback]\<rparr>)
                       | Inr d1 \<Rightarrow>
                           (case Exec conn (Script sql) d1 of
                              Inl err \<Rightarrow>
                                (Inl (Wrapf (''while applying '' @ filename) err),
                                 \<lparr>db = db w,
                                  log = l0 @ [TxBegin, Queried (SelectVersion t),
                                              Executed (UpdateVersion t after),
                                              Executed (Script sql), TxRollback]\<rparr>)
                            | Inr d2 \<Rightarrow>
                                (case Commit conn d2 of
                                   Some err \<Rightarrow>
                                     (Inl (Wrapf (''while applying '' @ filename) err),
                                      \<lparr>db = db w,
                                       log = l0 @ [TxBegin, Queried (SelectVersion t),
                                                   Executed (UpdateVersion t after),
                                                   Executed (Script sql), TxRollback]\<rparr>)
                                 | None \<Rightarrow>
                                     (Inr (),
                                      \<lparr>db = d2,
                                       log = l0 @ [TxBegin, Queried (SelectVersion t),
                                                   Executed (UpdateVersion t after),
                                                   Executed (Script sql), TxCommit]\<rparr>)))))))"
  by (simp add: Apply_def ReadFile_def BeginFunc_def tx_QueryRow_def tx_Exec_def emit_def Let_def
      split: option.splits sum.splits)

text \<open>
  For any connection, a call that returns an error leaves the database as it was.
\<close>

lemma Apply_Inl_db:
  "Apply conn m before after filename w = (Inl e, w') \<Longrightarrow> db w' = db w"
  by (auto simp: Apply_def split: prod.splits sum.splits dest!: BeginFunc_Inl_db ReadFile_db)

lemma initializeSchemaVersion_Inl_db:
  "initializeSchemaVersion conn m w = (Inl e, w') \<Longrightarrow> db w' = db w"
  by (auto simp: initializeSchemaVersion_def split: prod.splits sum.splits dest!: BeginFunc_Inl_db)

text \<open>
  On the reference database.
\<close>

lemma pg_initializeSchemaVersion:
  "initializeSchemaVersion (pg run) m w =
     (case tables (db w) (VersionTable m) of
        Some (Some v) \<Rightarrow> (Inr (), w\<lparr>log := log w @ init_events (VersionTable m) False\<rparr>)
      | _ \<Rightarrow> (Inr (), \<lparr>db = (db w)\<lparr>tables := (tables (db w))(VersionTable m \<mapsto> Some 0)\<rparr>,
                      log = log w @ init_events (VersionTable m) True\<rparr>))"
  by (simp add: initializeSchemaVersion_def BeginFunc_def tx_Exec_def tx_QueryRow_def emit_def
      pg_simps init_events_def split: option.splits)

lemma pg_Current:
  "Current (pg run) m w =
     (case tables (db w) (VersionTable m) of
        Some (Some v) \<Rightarrow>
          (Inr v, w\<lparr>log := log w @ init_events (VersionTable m) False
                          @ [TxBegin, Queried (SelectVersion (VersionTable m)), TxCommit]\<rparr>)
      | _ \<Rightarrow>
          (Inr 0, \<lparr>db = bump (db w) (VersionTable m) 0,
                   log = log w @ init_events (VersionTable m) True
                          @ [TxBegin, Queried (SelectVersion (VersionTable m)), TxCommit]\<rparr>))"
  by (simp add: Current_def pg_initializeSchemaVersion BeginFunc_def tx_QueryRow_def emit_def
      pg_simps bump_def split: option.splits)

lemma pg_Apply:
  assumes "file_bytes (Filesystem m) filename = Inr sql"
    and "tables (db w) (VersionTable m) = Some (Some current)"
  shows "Apply (pg run) m before after filename w =
     (if current \<noteq> before then
        (Inl (Wrapf (''while applying '' @ filename) (ExpectedCurrentVersion before current)),
         \<lparr>db = db w,
          log = log w @ [FileRead filename, TxBegin,
                         Queried (SelectVersion (VersionTable m)), TxRollback]\<rparr>)
      else
        (case run sql (bump (db w) (VersionTable m) after) of
           Inl err \<Rightarrow>
             (Inl (Wrapf (''while applying '' @ filename) err),
              \<lparr>db = db w,
               log = log w @ [FileRead filename, TxBegin,
                              Queried (SelectVersion (VersionTable m)),
                              Executed (UpdateVersion (VersionTable m) after),
                              Executed (Script sql), TxRollback]\<rparr>)
         | Inr d' \<Rightarrow>
             (Inr (),
              \<lparr>db = d',
               log = log w @ [FileRead filename, TxBegin,
                              Queried (SelectVersion (VersionTable m)),
                              Executed (UpdateVersion (VersionTable m) after),
                              Executed (Script sql), TxCommit]\<rparr>)))"
  using assms
  by (simp add: Apply_def ReadFile_def BeginFunc_def tx_QueryRow_def tx_Exec_def emit_def
      pg_simps bump_def split: sum.splits)

lemmas world_eval =
  Up_def pg_Current Apply_unfold initializeSchemaVersion_unfold pg_simps init_events_def bump_def
  run_script_def at_version_def fresh_def catalog_init_seed_def store_init_seed_def
  regular_files_def Let_def

section \<open>Version table and apply: the properties\<close>

text \<open>
  Claim C9. On a database without the version table, \<open>Current\<close> creates the table,
  inserts the row with version 0 and returns 0. On a database whose version table holds
  a row, \<open>Current\<close> returns the version of that row and leaves the database as it
  was: neither an insert nor an update is issued.
\<close>

theorem Current_bootstraps:
  "(tables (db w) (VersionTable m) = None \<longrightarrow>
      Current (pg run) m w =
        (Inr 0,
         \<lparr>db = (db w)\<lparr>tables := (tables (db w))(VersionTable m \<mapsto> Some 0)\<rparr>,
          log = log w @ [TxBegin, Executed (CreateTable (VersionTable m)),
                         Queried (CountRows (VersionTable m)),
                         Executed (InsertRow (VersionTable m)), TxCommit,
                         TxBegin, Queried (SelectVersion (VersionTable m)), TxCommit]\<rparr>))
   \<and> (\<forall>v. tables (db w) (VersionTable m) = Some (Some v) \<longrightarrow>
      Current (pg run) m w =
        (Inr v,
         \<lparr>db = db w,
          log = log w @ [TxBegin, Executed (CreateTable (VersionTable m)),
                         Queried (CountRows (VersionTable m)), TxCommit,
                         TxBegin, Queried (SelectVersion (VersionTable m)), TxCommit]\<rparr>))"
  by (simp add: pg_Current init_events_def bump_def)

text \<open>
  A fresh database, and a database at version 3.
\<close>

theorem Current_bootstraps_witness:
  "Current (pg run_script) catalog_init_seed fresh =
     (Inr 0,
      \<lparr>db = \<lparr>tables = [''schema_version'' \<mapsto> Some 0], user_data = []\<rparr>,
       log = [TxBegin, Executed (CreateTable ''schema_version''),
              Queried (CountRows ''schema_version''),
              Executed (InsertRow ''schema_version''), TxCommit,
              TxBegin, Queried (SelectVersion ''schema_version''), TxCommit]\<rparr>)
   \<and> Current (pg run_script) catalog_init_seed (at_version 3) =
     (Inr 3,
      \<lparr>db = db (at_version 3),
       log = [TxBegin, Executed (CreateTable ''schema_version''),
              Queried (CountRows ''schema_version''), TxCommit,
              TxBegin, Queried (SelectVersion ''schema_version''), TxCommit]\<rparr>)"
proof -
  have a: "tables (db fresh) (VersionTable catalog_init_seed) = None"
    by (simp add: fresh_def)
  have b: "tables (db (at_version 3)) (VersionTable catalog_init_seed) = Some (Some 3)"
    by (simp add: at_version_def catalog_init_seed_def)
  from Current_bootstraps[of fresh catalog_init_seed run_script] a
  have 1: "Current (pg run_script) catalog_init_seed fresh =
     (Inr 0,
      \<lparr>db = \<lparr>tables = [''schema_version'' \<mapsto> Some 0], user_data = []\<rparr>,
       log = [TxBegin, Executed (CreateTable ''schema_version''),
              Queried (CountRows ''schema_version''),
              Executed (InsertRow ''schema_version''), TxCommit,
              TxBegin, Queried (SelectVersion ''schema_version''), TxCommit]\<rparr>)"
    by (simp add: fresh_def catalog_init_seed_def)
  from Current_bootstraps[of "at_version 3" catalog_init_seed run_script] b
  have 2: "Current (pg run_script) catalog_init_seed (at_version 3) =
     (Inr 3,
      \<lparr>db = db (at_version 3),
       log = [TxBegin, Executed (CreateTable ''schema_version''),
              Queried (CountRows ''schema_version''), TxCommit,
              TxBegin, Queried (SelectVersion ''schema_version''), TxCommit]\<rparr>)"
    by (simp add: at_version_def catalog_init_seed_def)
  from 1 2 show ?thesis by simp
qed

text \<open>
  Claim C1. When the patch file can be read, the version row holds \<open>before\<close>
  and the database rejects the script (run after the row was set to \<open>after\<close>),
  \<open>Apply\<close> returns that error, the transaction is rolled back and the database is
  what it was before the call: the version row is not advanced, nothing the script did
  is kept, and \<open>Current\<close> after the failed call returns \<open>before\<close>.
\<close>

theorem Apply_atomic:
  assumes "file_bytes (Filesystem m) filename = Inr sql"
    and "tables (db w) (VersionTable m) = Some (Some before)"
    and "run sql ((db w)\<lparr>tables := (tables (db w))(VersionTable m \<mapsto> Some after)\<rparr>) = Inl err"
  shows "\<exists>w'. Apply (pg run) m before after filename w
                = (Inl (Wrapf (''while applying '' @ filename) err), w')
             \<and> db w' = db w
             \<and> log w' = log w @ [FileRead filename, TxBegin,
                                 Queried (SelectVersion (VersionTable m)),
                                 Executed (UpdateVersion (VersionTable m) after),
                                 Executed (Script sql), TxRollback]
             \<and> (\<exists>w''. Current (pg run) m w' = (Inr before, w'') \<and> db w'' = db w)"
  using assms
  by (simp add: pg_Apply[OF assms(1,2)] pg_Current bump_def)

text \<open>
  Step 1 with a script that divides by zero, on a database at version 0.
\<close>

theorem Apply_atomic_witness:
  "file_bytes (Filesystem catalog_bad) ''1_bad.up.sql'' = Inr ''select 1/0;''
   \<and> run_script ''select 1/0;''
        ((db (at_version 0))\<lparr>tables := (tables (db (at_version 0)))(''schema_version'' \<mapsto> Some 1)\<rparr>)
       = Inl (PgError ''22012'')
   \<and> (\<exists>w'. Apply (pg run_script) catalog_bad 0 1 ''1_bad.up.sql'' (at_version 0)
                = (Inl (Wrapf ''while applying 1_bad.up.sql'' (PgError ''22012'')), w')
           \<and> db w' = db (at_version 0)
           \<and> (\<exists>w''. Current (pg run_script) catalog_bad w' = (Inr 0, w'')
                   \<and> db w'' = db (at_version 0)))"
proof -
  have f: "file_bytes (Filesystem catalog_bad) ''1_bad.up.sql'' = Inr ''select 1/0;''"
    by (simp add: catalog_bad_def store_bad_def regular_files_def)
  have r: "tables (db (at_version 0)) (VersionTable catalog_bad) = Some (Some 0)"
    by (simp add: at_version_def catalog_bad_def)
  have e: "run_script ''select 1/0;''
        ((db (at_version 0))\<lparr>tables := (tables (db (at_version 0)))(VersionTable catalog_bad \<mapsto> Some 1)\<rparr>)
       = Inl (PgError ''22012'')"
    by (simp add: run_script_def)
  from Apply_atomic[where m = catalog_bad and filename = "''1_bad.up.sql''"
        and sql = "''select 1/0;''" and w = "at_version 0" and before = 0 and after = 1
        and run = run_script and err = "PgError ''22012''", OF f r e] f e
  show ?thesis
    by (auto simp: catalog_bad_def)
qed

text \<open>
  Claim C4. In the transaction of \<open>Apply\<close> the version row is read first. When it
  is not \<open>before\<close>, \<open>Apply\<close> returns the conflict error, nothing is written (no
  update and no script in the log) and the database is unchanged. When it is
  \<open>before\<close>, the row is set to \<open>after\<close> and the script runs on that database;
  the result is committed when the script succeeds.
\<close>

theorem Apply_compare_and_set:
  assumes "file_bytes (Filesystem m) filename = Inr sql"
    and "tables (db w) (VersionTable m) = Some (Some current)"
  shows "(current \<noteq> before \<longrightarrow>
            Apply (pg run) m before after filename w =
              (Inl (Wrapf (''while applying '' @ filename)
                     (ExpectedCurrentVersion before current)),
               \<lparr>db = db w,
                log = log w @ [FileRead filename, TxBegin,
                               Queried (SelectVersion (VersionTable m)), TxRollback]\<rparr>))
       \<and> (current = before \<longrightarrow>
            Apply (pg run) m before after filename w =
              (case run sql ((db w)\<lparr>tables := (tables (db w))(VersionTable m \<mapsto> Some after)\<rparr>) of
                 Inl err \<Rightarrow>
                   (Inl (Wrapf (''while applying '' @ filename) err),
                    \<lparr>db = db w,
                     log = log w @ [FileRead filename, TxBegin,
                                    Queried (SelectVersion (VersionTable m)),
                                    Executed (UpdateVersion (VersionTable m) after),
                                    Executed (Script sql), TxRollback]\<rparr>)
               | Inr d' \<Rightarrow>
                   (Inr (),
                    \<lparr>db = d',
                     log = log w @ [FileRead filename, TxBegin,
                                    Queried (SelectVersion (VersionTable m)),
                                    Executed (UpdateVersion (VersionTable m) after),
                                    Executed (Script sql), TxCommit]\<rparr>)))"
  by (simp add: pg_Apply[OF assms] bump_def)

text \<open>
  Step 1 expected on version 0: a database at version 5, and a database at version 0.
\<close>

theorem Apply_compare_and_set_witness:
  "Apply (pg run_script) catalog_init_seed 0 1 ''1_init.up.sql'' (at_version 5) =
     (Inl (Wrapf ''while applying 1_init.up.sql'' (ExpectedCurrentVersion 0 5)),
      \<lparr>db = db (at_version 5),
       log = [FileRead ''1_init.up.sql'', TxBegin,
              Queried (SelectVersion ''schema_version''), TxRollback]\<rparr>)
   \<and> Apply (pg run_script) catalog_init_seed 0 1 ''1_init.up.sql'' (at_version 0) =
     (Inr (),
      \<lparr>db = \<lparr>tables = [''schema_version'' \<mapsto> Some 1],
              user_data = [''create table t(x int);'']\<rparr>,
       log = [FileRead ''1_init.up.sql'', TxBegin,
              Queried (SelectVersion ''schema_version''),
              Executed (UpdateVersion ''schema_version'' 1),
              Executed (Script ''create table t(x int);''), TxCommit]\<rparr>)"
proof -
  have f: "file_bytes (Filesystem catalog_init_seed) ''1_init.up.sql'' = Inr ''create table t(x int);''"
    by (simp add: catalog_init_seed_def store_init_seed_def regular_files_def)
  have r5: "tables (db (at_version 5)) (VersionTable catalog_init_seed) = Some (Some 5)"
    by (simp add: at_version_def catalog_init_seed_def)
  have r0: "tables (db (at_version 0)) (VersionTable catalog_init_seed) = Some (Some 0)"
    by (simp add: at_version_def catalog_init_seed_def)
  from Apply_compare_and_set[OF f r5, of 0 run_script 1]
  have 1: "Apply (pg run_script) catalog_init_seed 0 1 ''1_init.up.sql'' (at_version 5) =
     (Inl (Wrapf ''while applying 1_init.up.sql'' (ExpectedCurrentVersion 0 5)),
      \<lparr>db = db (at_version 5),
       log = [FileRead ''1_init.up.sql'', TxBegin,
              Queried (SelectVersion ''schema_version''), TxRollback]\<rparr>)"
    by (simp add: catalog_init_seed_def at_version_def)
  from Apply_compare_and_set[OF f r0, of 0 run_script 1]
  have 2: "Apply (pg run_script) catalog_init_seed 0 1 ''1_init.up.sql'' (at_version 0) =
     (Inr (),
      \<lparr>db = \<lparr>tables = [''schema_version'' \<mapsto> Some 1],
              user_data = [''create table t(x int);'']\<rparr>,
       log = [FileRead ''1_init.up.sql'', TxBegin,
              Queried (SelectVersion ''schema_version''),
              Executed (UpdateVersion ''schema_version'' 1),
              Executed (Script ''create table t(x int);''), TxCommit]\<rparr>)"
    by (simp add: catalog_init_seed_def at_version_def run_script_def)
  from 1 2 show ?thesis by simp
qed

text \<open>
  Claim C8, as the program has it. The script bytes are read before the transaction
  is begun, not in it: the first event of every \<open>Apply\<close> is the read of the file.
  When the read fails, with whatever error the file system returns, \<open>Apply\<close>
  returns that error wrapped as a read error and no transaction was begun, so there is
  none to roll back. In a call that succeeds, the order is: read the file, begin, read
  the version row, set it to \<open>after\<close>, run the script, commit; the version is bumped
  before the script body runs, in the same transaction. This holds for any connection.
\<close>

theorem Apply_reads_script_before_transaction:
  "(\<forall>err. file_bytes (Filesystem m) filename = Inl err \<longrightarrow>
      Apply conn m before after filename w =
        (Inl (Wrapf ''while reading patch file'' err),
         \<lparr>db = db w, log = log w @ [FileRead filename]\<rparr>))
   \<and> (\<forall>w'. Apply conn m before after filename w = (Inr (), w') \<longrightarrow>
         (\<exists>sql. file_bytes (Filesystem m) filename = Inr sql
              \<and> log w' = log w @ [FileRead filename, TxBegin,
                                   Queried (SelectVersion (VersionTable m)),
                                   Executed (UpdateVersion (VersionTable m) after),
                                   Executed (Script sql), TxCommit]))
   \<and> (\<exists>evs. log (snd (Apply conn m before after filename w)) = log w @ FileRead filename # evs)"
proof (intro conjI impI allI)
  fix err assume "file_bytes (Filesystem m) filename = Inl err"
  then show "Apply conn m before after filename w =
        (Inl (Wrapf ''while reading patch file'' err),
         \<lparr>db = db w, log = log w @ [FileRead filename]\<rparr>)"
    by (simp add: Apply_unfold)
next
  fix w' assume "Apply conn m before after filename w = (Inr (), w')"
  then show "\<exists>sql. file_bytes (Filesystem m) filename = Inr sql
              \<and> log w' = log w @ [FileRead filename, TxBegin,
                                   Queried (SelectVersion (VersionTable m)),
                                   Executed (UpdateVersion (VersionTable m) after),
                                   Executed (Script sql), TxCommit]"
    by (auto simp: Apply_unfold Let_def split: option.splits sum.splits if_splits)
next
  show "\<exists>evs. log (snd (Apply conn m before after filename w)) = log w @ FileRead filename # evs"
    by (simp add: Apply_unfold Let_def split: option.splits sum.splits)
qed

text \<open>
  A file that does not exist, a directory with the name of a script, and step 1 on a
  database at version 0.
\<close>

theorem Apply_reads_script_before_transaction_witness:
  "Apply (pg run_script) catalog_init_seed 0 1 ''9_missing.up.sql'' (at_version 0) =
     (Inl (Wrapf ''while reading patch file''
            (PathError ''open'' ''9_missing.up.sql'' ''file does not exist'')),
      \<lparr>db = db (at_version 0), log = [FileRead ''9_missing.up.sql'']\<rparr>)
   \<and> Apply (pg run_script) catalog_directory 0 1 ''1_d.up.sql'' (at_version 0) =
     (Inl (Wrapf ''while reading patch file''
            (PathError ''read'' ''1_d.up.sql'' ''is a directory'')),
      \<lparr>db = db (at_version 0), log = [FileRead ''1_d.up.sql'']\<rparr>)
   \<and> fst (Apply (pg run_script) catalog_init_seed 0 1 ''1_init.up.sql'' (at_version 0)) = Inr ()
   \<and> (\<exists>sql. file_bytes (Filesystem catalog_init_seed) ''1_init.up.sql'' = Inr sql
        \<and> log (snd (Apply (pg run_script) catalog_init_seed 0 1 ''1_init.up.sql'' (at_version 0)))
            = [FileRead ''1_init.up.sql'', TxBegin,
               Queried (SelectVersion ''schema_version''),
               Executed (UpdateVersion ''schema_version'' 1),
               Executed (Script sql), TxCommit])"
proof -
  let ?a = "Apply (pg run_script) catalog_init_seed 0 1 ''1_init.up.sql'' (at_version 0)"
  have none: "file_bytes (Filesystem catalog_init_seed) ''9_missing.up.sql''
                = Inl (PathError ''open'' ''9_missing.up.sql'' ''file does not exist'')"
    by (simp add: catalog_init_seed_def store_init_seed_def regular_files_def)
  have dir: "file_bytes (Filesystem catalog_directory) ''1_d.up.sql''
                = Inl (PathError ''read'' ''1_d.up.sql'' ''is a directory'')"
    by (simp add: catalog_directory_def store_directory_def)
  have ok: "fst ?a = Inr ()" by (simp add: world_eval)
  then have eq: "?a = (Inr (), snd ?a)" by (simp add: prod_eq_iff)
  note t1 = Apply_reads_script_before_transaction[of catalog_init_seed "''9_missing.up.sql''"
      "pg run_script" 0 1 "at_version 0"]
  note t2 = Apply_reads_script_before_transaction[of catalog_init_seed "''1_init.up.sql''"
      "pg run_script" 0 1 "at_version 0"]
  note t3 = Apply_reads_script_before_transaction[of catalog_directory "''1_d.up.sql''"
      "pg run_script" 0 1 "at_version 0"]
  from t1 none have 1: "Apply (pg run_script) catalog_init_seed 0 1 ''9_missing.up.sql'' (at_version 0) =
     (Inl (Wrapf ''while reading patch file''
            (PathError ''open'' ''9_missing.up.sql'' ''file does not exist'')),
      \<lparr>db = db (at_version 0), log = [FileRead ''9_missing.up.sql'']\<rparr>)"
    by (simp add: at_version_def)
  from t3 dir have 3: "Apply (pg run_script) catalog_directory 0 1 ''1_d.up.sql'' (at_version 0) =
     (Inl (Wrapf ''while reading patch file''
            (PathError ''read'' ''1_d.up.sql'' ''is a directory'')),
      \<lparr>db = db (at_version 0), log = [FileRead ''1_d.up.sql'']\<rparr>)"
    by (simp add: at_version_def)
  from t2 eq have "\<exists>sql. file_bytes (Filesystem catalog_init_seed) ''1_init.up.sql'' = Inr sql
        \<and> log (snd ?a) = log (at_version 0) @ [FileRead ''1_init.up.sql'', TxBegin,
               Queried (SelectVersion (VersionTable catalog_init_seed)),
               Executed (UpdateVersion (VersionTable catalog_init_seed) 1),
               Executed (Script sql), TxCommit]"
    by blast
  then have 2: "\<exists>sql. file_bytes (Filesystem catalog_init_seed) ''1_init.up.sql'' = Inr sql
        \<and> log (snd ?a) = [FileRead ''1_init.up.sql'', TxBegin,
               Queried (SelectVersion ''schema_version''),
               Executed (UpdateVersion ''schema_version'' 1),
               Executed (Script sql), TxCommit]"
    by (simp add: at_version_def catalog_init_seed_def)
  from 1 3 ok 2 show ?thesis by simp
qed

text \<open>
  Claim C8 as it was stated has the read of the script inside the transaction, after
  the version row was bumped. On a database at version 0, step 1 reads the file before
  the begin; and with a missing file no transaction is begun at all.
\<close>

theorem Apply_reads_script_inside_transaction_counterexample:
  "log (snd (Apply (pg run_script) catalog_init_seed 0 1 ''1_init.up.sql'' (at_version 0)))
     = [FileRead ''1_init.up.sql'', TxBegin,
        Queried (SelectVersion ''schema_version''),
        Executed (UpdateVersion ''schema_version'' 1),
        Executed (Script ''create table t(x int);''), TxCommit]
   \<and> Apply (pg run_script) catalog_init_seed 0 1 ''9_missing.up.sql'' (at_version 0) =
     (Inl (Wrapf ''while reading patch file''
            (PathError ''open'' ''9_missing.up.sql'' ''file does not exist'')),
      \<lparr>db = db (at_version 0), log = [FileRead ''9_missing.up.sql'']\<rparr>)"
  by (simp add: world_eval)

text \<open>
  Claim C10, as the program has it. For any connection on which the transaction
  begins, the table statement succeeds and the count returns \<open>n\<close>: when \<open>n\<close>
  is positive the table counts as initialized and no insert is issued; when it is not
  and the insert fails, \<open>initializeSchemaVersion\<close> returns that error, wrapped with
  the name of the table, the transaction is rolled back, and \<open>Current\<close> returns
  the same error.
\<close>

theorem initialize_insert_failure_is_returned:
  assumes "Begin conn (db w) = None"
    and "Exec conn (CreateTable (VersionTable m)) (db w) = Inr d1"
    and "QueryRow conn (CountRows (VersionTable m)) d1 = Inr n"
  shows "(n > 0 \<and> Commit conn d1 = None \<longrightarrow>
            initializeSchemaVersion conn m w =
              (Inr (), \<lparr>db = d1,
                        log = log w @ [TxBegin, Executed (CreateTable (VersionTable m)),
                                       Queried (CountRows (VersionTable m)), TxCommit]\<rparr>))
       \<and> (\<forall>err. n \<le> 0 \<and> Exec conn (InsertRow (VersionTable m)) d1 = Inl err \<longrightarrow>
            initializeSchemaVersion conn m w =
              (Inl (Wrapf (''while creating version table '' @ VersionTable m) err),
               \<lparr>db = db w,
                log = log w @ [TxBegin, Executed (CreateTable (VersionTable m)),
                               Queried (CountRows (VersionTable m)),
                               Executed (InsertRow (VersionTable m)), TxRollback]\<rparr>)
            \<and> fst (Current conn m w)
                = Inl (Wrapf (''while creating version table '' @ VersionTable m) err))"
  using assms
  by (simp add: Current_def initializeSchemaVersion_unfold Let_def)

text \<open>
  The session that lost the race on a fresh database, and a database at version 3.
\<close>

theorem initialize_insert_failure_is_returned_witness:
  "initializeSchemaVersion (pg_lost_race run_script) catalog_init_seed fresh =
     (Inl (Wrapf ''while creating version table schema_version'' unique_violation),
      \<lparr>db = db fresh,
       log = [TxBegin, Executed (CreateTable ''schema_version''),
              Queried (CountRows ''schema_version''),
              Executed (InsertRow ''schema_version''), TxRollback]\<rparr>)
   \<and> initializeSchemaVersion (pg run_script) catalog_init_seed (at_version 3) =
     (Inr (),
      \<lparr>db = db (at_version 3),
       log = [TxBegin, Executed (CreateTable ''schema_version''),
              Queried (CountRows ''schema_version''), TxCommit]\<rparr>)"
proof -
  let ?d1 = "\<lparr>tables = [''schema_version'' \<mapsto> None], user_data = []\<rparr> :: string list pgdb"
  have b: "Begin (pg_lost_race run_script) (db fresh) = None"
    by (simp add: pg_lost_race_def pg_def)
  have c: "Exec (pg_lost_race run_script) (CreateTable (VersionTable catalog_init_seed)) (db fresh) = Inr ?d1"
    by (simp add: pg_lost_race_def pg_def fresh_def catalog_init_seed_def)
  have q: "QueryRow (pg_lost_race run_script) (CountRows (VersionTable catalog_init_seed)) ?d1 = Inr 0"
    by (simp add: pg_lost_race_def pg_def catalog_init_seed_def)
  have i: "Exec (pg_lost_race run_script) (InsertRow (VersionTable catalog_init_seed)) ?d1 = Inl unique_violation"
    by (simp add: pg_lost_race_def pg_def)
  from initialize_insert_failure_is_returned[OF b c q] i
  have 1: "initializeSchemaVersion (pg_lost_race run_script) catalog_init_seed fresh =
     (Inl (Wrapf ''while creating version table schema_version'' unique_violation),
      \<lparr>db = db fresh,
       log = [TxBegin, Executed (CreateTable ''schema_version''),
              Queried (CountRows ''schema_version''),
              Executed (InsertRow ''schema_version''), TxRollback]\<rparr>)"
    by (simp add: catalog_init_seed_def fresh_def)
  have b3: "Begin (pg run_script) (db (at_version 3)) = None"
    by (simp add: pg_def)
  have c3: "Exec (pg run_script) (CreateTable (VersionTable catalog_init_seed)) (db (at_version 3))
              = Inr (db (at_version 3))"
    by (simp add: pg_def at_version_def catalog_init_seed_def)
  have q3: "QueryRow (pg run_script) (CountRows (VersionTable catalog_init_seed)) (db (at_version 3)) = Inr 1"
    by (simp add: pg_def at_version_def catalog_init_seed_def)
  have m3: "Commit (pg run_script) (db (at_version 3)) = None"
    by (simp add: pg_def)
  from initialize_insert_failure_is_returned[OF b3 c3 q3] m3
  have 2: "initializeSchemaVersion (pg run_script) catalog_init_seed (at_version 3) =
     (Inr (),
      \<lparr>db = db (at_version 3),
       log = [TxBegin, Executed (CreateTable ''schema_version''),
              Queried (CountRows ''schema_version''), TxCommit]\<rparr>)"
    by (simp add: catalog_init_seed_def at_version_def)
  from 1 2 show ?thesis by simp
qed

text \<open>
  Claim C10 as it was stated has the failed insert taken for "already initialized" and
  success returned. The session that lost the race gets the key violation back as an
  error, from \<open>initializeSchemaVersion\<close> and from \<open>Current\<close>.
\<close>

theorem initialize_lost_race_counterexample:
  "fst (initializeSchemaVersion (pg_lost_race run_script) catalog_init_seed fresh)
     = Inl (Wrapf ''while creating version table schema_version'' (PgError ''23505''))
   \<and> fst (Current (pg_lost_race run_script) catalog_init_seed fresh)
     = Inl (Wrapf ''while creating version table schema_version'' (PgError ''23505''))
   \<and> db (snd (initializeSchemaVersion (pg_lost_race run_script) catalog_init_seed fresh)) = db fresh"
  by (simp add: Current_def initializeSchemaVersion_unfold pg_lost_race_def pg_def Let_def
      fresh_def catalog_init_seed_def unique_violation_def)

section \<open>Upgrade: the properties\<close>














end
